theory Spec2Isabelle
  imports Complex_Main "HOL-Library.Sublist"
begin

section \<open>Data model\<close>

text \<open>
  The robot drives the Solteq Sund desktop application through a UI-automation library
  and checks the outcome with one SQL query. Everything outside the robot (the
  accessibility tree, the wall clock, the calendar, the SQL server) is an explicit
  component of a \<open>world\<close> value; every call that leaves the robot is recorded, with the
  instant at which it happens, in the world's \<open>trace\<close>.

  Python strings are modelled as lists of code points below 256, Python's floating-point
  seconds as exact rationals. The clock is the one \<open>time.time()\<close> reads; it advances by
  sleeping only, and by exactly the time asked for: searching the tree, sending input or
  querying the database takes no time on it. The screen is given as a history, a
  function of the instant: whatever the application does in answer to the robot's input
  is some such history, so a statement about all histories covers every run.
\<close>

type_synonym element = nat

datatype control_type =
  WindowControl | EditControl | ListItemControl | TabItemControl | PaneControl

text \<open>
  A control descriptor: the control class, the element the search starts from
  (\<open>None\<close> is the desktop root), the search depth and the identifying attributes, in
  the order in which the dict literal lists them.
\<close>

record descriptor =
  kind :: control_type
  searchFromControl :: "element option"
  searchDepth :: int
  searchProperties :: "(string \<times> string) list"

text \<open>A control handle: its descriptor and the element it was last resolved to.\<close>

record control =
  descr :: descriptor
  element :: "element option"

datatype error =
  TimeoutError string
  | ValueError string
  | LookupError descriptor
  | AttributeError string
  | DatabaseError string
  | OrchestratorError string

text \<open>
  One event per call that leaves the robot: a line for the orchestrator's log, a program
  started, one search of the accessibility tree, an input sent to a control, a database
  connection opened, a statement executed (its text and its bound parameters).
\<close>

datatype event =
  TraceLogged string
  | FileStarted string
  | Searched descriptor
  | Focused control
  | KeysSent control string
  | Clicked control
  | DoubleClicked control
  | SqlConnected string
  | SqlExecuted string "string list"

record table =
  description :: "string list"
  rows :: "string list list"

record world =
  clock :: rat
  gui :: "rat \<Rightarrow> descriptor \<Rightarrow> element option"
  calendar :: "rat \<Rightarrow> nat \<times> nat \<times> nat"
  sql_server :: "string \<Rightarrow> string + (string \<Rightarrow> string + table)"
  trace :: "(rat \<times> event) list"

type_synonym 'a io = "world \<Rightarrow> (error + 'a) \<times> world"

definition bind :: "'a io \<Rightarrow> ('a \<Rightarrow> 'b io) \<Rightarrow> 'b io" where
  "bind m f w = (case m w of (Inl e, w1) \<Rightarrow> (Inl e, w1) | (Inr x, w1) \<Rightarrow> f x w1)"

definition emit :: "event \<Rightarrow> world \<Rightarrow> world" where
  "emit ev w = w\<lparr>trace := trace w @ [(clock w, ev)]\<rparr>"

definition sleep :: "rat \<Rightarrow> world \<Rightarrow> world" where
  \<comment> \<open>\<open>time.sleep(d)\<close>: the only way the model's clock advances\<close>
  "sleep d w = w\<lparr>clock := clock w + d\<rparr>"

section \<open>Python string formatting\<close>

definition hex_digit :: "nat \<Rightarrow> char" where
  "hex_digit n = ''0123456789abcdef'' ! n"

definition printable :: "char \<Rightarrow> bool" where
  "printable c = (let n = (of_char c :: nat) in
     (32 \<le> n \<and> n < 127) \<or> (161 \<le> n \<and> n \<noteq> 173))"

definition repr_char :: "char \<Rightarrow> char \<Rightarrow> string" where
  \<comment> \<open>one character inside \<open>repr\<close> of a string delimited by the quote \<open>q\<close>\<close>
  "repr_char q c =
     (if c = q \<or> c = CHR 0x5C then [CHR 0x5C, c]
      else if c = CHR 0x09 then [CHR 0x5C, CHR ''t'']
      else if c = CHR 0x0A then [CHR 0x5C, CHR ''n'']
      else if c = CHR 0x0D then [CHR 0x5C, CHR ''r'']
      else if printable c then [c]
      else [CHR 0x5C, CHR ''x'', hex_digit (of_char c div 16), hex_digit (of_char c mod 16)])"

definition repr_str :: "string \<Rightarrow> string" where
  \<comment> \<open>\<open>repr(s)\<close>: single quotes unless the string has a single and no double quote\<close>
  "repr_str s =
     (let q = (if CHR 0x27 \<in> set s \<and> CHR 0x22 \<notin> set s then CHR 0x22 else CHR 0x27)
      in [q] @ concat (map (repr_char q) s) @ [q])"

fun join :: "string \<Rightarrow> string list \<Rightarrow> string" where
  "join sep [] = []"
| "join sep [x] = x"
| "join sep (x # y # ys) = x @ sep @ join sep (y # ys)"

definition repr_dict :: "(string \<times> string) list \<Rightarrow> string" where
  \<comment> \<open>what an f-string prints for a dict of strings\<close>
  "repr_dict d =
     ''{'' @ join '', '' (map (\<lambda>(k, v). repr_str k @ '': '' @ repr_str v) d) @ ''}''"

section \<open>The UI-automation library\<close>

text \<open>
  Modelled from the library's documented behaviour (the library is not part of the
  repository): \<open>Exists(maxSearchSeconds, searchIntervalSeconds)\<close> forgets the element held
  so far, searches the accessibility tree, and after a failed search sleeps
  \<open>min(remaining, interval)\<close> and searches again as long as the budget has not run out.
  With a budget of 0 it searches exactly once and does not wait. (A positive budget with
  a non-positive interval would spin without sleeping; the model stops there instead.)
  A search itself takes no time on the model's clock.
\<close>

function Exists_loop :: "rat \<Rightarrow> rat \<Rightarrow> control \<Rightarrow> world \<Rightarrow> (bool \<times> control) \<times> world" where
  "Exists_loop deadline interval c w =
     (let w1 = emit (Searched (descr c)) w in
      case gui w (clock w) (descr c) of
        Some e \<Rightarrow> ((True, c\<lparr>element := Some e\<rparr>), w1)
      | None \<Rightarrow>
          (let remain = deadline - clock w in
           if remain > 0 \<and> interval > 0
           then Exists_loop deadline interval c (sleep (min remain interval) w1)
           else ((False, c\<lparr>element := None\<rparr>), w1)))"
  by pat_completeness auto
termination
proof (relation "measure (\<lambda>(deadline, interval, c, w). nat \<lceil>(deadline - clock w) / interval\<rceil>)",
    goal_cases)
  case 1
  show ?case by simp
next
  case (2 deadline interval c w w1 remain)
  then have pos: "0 < deadline - clock w" "0 < interval" by simp_all
  have clk: "clock (sleep (min remain interval) w1) = clock w + min (deadline - clock w) interval"
    using 2 by (simp add: sleep_def emit_def)
  let ?r = "(deadline - clock w) / interval"
  have new: "(deadline - (clock w + min (deadline - clock w) interval)) / interval
               = (if ?r \<le> 1 then 0 else ?r - 1)"
    using pos by (auto simp: min_def field_simps)
  have "0 < ?r" using pos by simp
  then have "nat \<lceil>if ?r \<le> 1 then 0 else ?r - 1\<rceil> < nat \<lceil>?r\<rceil>"
    by (auto simp: less_ceiling_iff) linarith+
  then show ?case using clk new by simp
qed

declare Exists_loop.simps [simp del]

definition Exists :: "rat \<Rightarrow> rat \<Rightarrow> control \<Rightarrow> world \<Rightarrow> (bool \<times> control) \<times> world" where
  "Exists maxSearchSeconds searchIntervalSeconds c w =
     Exists_loop (clock w + maxSearchSeconds) searchIntervalSeconds c w"

definition TIME_OUT_SECOND :: rat where
  "TIME_OUT_SECOND = 10"

definition OPERATION_WAIT_TIME :: rat where
  "OPERATION_WAIT_TIME = 1 / 2"

definition new_control :: "control_type \<Rightarrow> element option \<Rightarrow> int \<Rightarrow> (string \<times> string) list \<Rightarrow> control" where
  \<comment> \<open>constructing a control object searches nothing yet\<close>
  "new_control ct from depth props =
     \<lparr>descr = \<lparr>kind = ct, searchFromControl = from, searchDepth = depth,
                searchProperties = props\<rparr>,
      element = None\<rparr>"

definition child :: "control \<Rightarrow> control_type \<Rightarrow> (string \<times> string) list \<Rightarrow> control" where
  \<comment> \<open>\<open>parent.EditControl(AutomationId=...)\<close>: a search below the parent's element, with the
      library's default depth \<open>0xFFFFFFFF\<close>\<close>
  "child parent ct props = new_control ct (element parent) 4294967295 props"

definition Element :: "control \<Rightarrow> control io" where
  \<comment> \<open>the \<open>Element\<close> property: a handle without an element is searched for, for up to
      \<open>TIME_OUT_SECOND\<close>, and \<open>LookupError\<close> is raised when nothing is found\<close>
  "Element c w =
     (case element c of
        Some e \<Rightarrow> (Inr c, w)
      | None \<Rightarrow>
          (case Exists TIME_OUT_SECOND 1 c w of
             ((found, c'), w1) \<Rightarrow>
               if found then (Inr c', w1) else (Inl (LookupError (descr c)), w1)))"

text \<open>
  Modelled from the library: an action (\<open>SetFocus\<close>, \<open>SendKeys\<close>, \<open>Click\<close>,
  \<open>DoubleClick\<close>) resolves the element of its control, acts on it, and then sleeps for
  \<open>waitTime\<close>, which is \<open>OPERATION_WAIT_TIME\<close> when the caller does not give it. The handle
  that comes back is the control with its element resolved.
\<close>

definition wait_time :: "rat option \<Rightarrow> rat" where
  "wait_time waitTime = (case waitTime of None \<Rightarrow> OPERATION_WAIT_TIME | Some t \<Rightarrow> t)"

definition SetFocus :: "control \<Rightarrow> rat option \<Rightarrow> control io" where
  "SetFocus c waitTime =
     bind (Element c) (\<lambda>c' w. (Inr c', sleep (wait_time waitTime) (emit (Focused c') w)))"

definition SendKeys :: "control \<Rightarrow> string \<Rightarrow> rat option \<Rightarrow> control io" where
  "SendKeys c text waitTime =
     bind (Element c) (\<lambda>c' w. (Inr c', sleep (wait_time waitTime) (emit (KeysSent c' text) w)))"

definition Click :: "control \<Rightarrow> rat option \<Rightarrow> control io" where
  "Click c waitTime =
     bind (Element c) (\<lambda>c' w. (Inr c', sleep (wait_time waitTime) (emit (Clicked c') w)))"

definition DoubleClick :: "control \<Rightarrow> rat option \<Rightarrow> control io" where
  "DoubleClick c waitTime =
     bind (Element c) (\<lambda>c' w. (Inr c', sleep (wait_time waitTime) (emit (DoubleClicked c') w)))"

section \<open>The bounded wait primitives\<close>

text \<open>
  \<open>wait_for_control\<close> and \<open>wait_for_control_to_disappear\<close> of the driver. Each is its
  \<open>while\<close> loop, a recursive function that terminates because every round sleeps half
  a time unit, and the method that computes the deadline and enters the loop. An
  argument left out (\<open>search_depth=1\<close>, \<open>timeout=30\<close>) is \<open>None\<close>.
\<close>

definition not_found_message :: "(string \<times> string) list \<Rightarrow> string" where
  "not_found_message search_params =
     ''Control with parameters '' @ repr_dict search_params
       @ '' was not found within the timeout period.''"

definition not_disappeared_message :: "(string \<times> string) list \<Rightarrow> string" where
  "not_disappeared_message search_params =
     ''Control with parameters '' @ repr_dict search_params
       @ '' did not disappear within the timeout period.''"

text \<open>The \<open>while time.time() < end_time\<close> loop of \<open>wait_for_control\<close>.\<close>

function wait_for_control_loop ::
  "control_type \<Rightarrow> (string \<times> string) list \<Rightarrow> int \<Rightarrow> rat \<Rightarrow> control io" where
  "wait_for_control_loop control_type search_params search_depth end_time w =
     (if clock w < end_time then
        (case Exists 0 0 (new_control control_type None search_depth search_params) w of
           ((found, control), w1) \<Rightarrow>
             if found then (Inr control, w1)
             else wait_for_control_loop control_type search_params search_depth end_time
                    (sleep (1 / 2) w1))
      else (Inl (TimeoutError (not_found_message search_params)), w))"
  by pat_completeness auto
termination
proof (relation "measure (\<lambda>(ct, sp, d, end_time, w). nat \<lceil>(end_time - clock w) * 2\<rceil>)",
    goal_cases)
  case 1
  show ?case by simp
next
  case (2 control_type search_params search_depth end_time w res w1 found control)
  have "clock (snd (Exists 0 0 c w)) = clock w" for c
    unfolding Exists_def by (subst Exists_loop.simps) (simp add: emit_def Let_def split: option.splits)
  from this [of "new_control control_type None search_depth search_params"] 2(2) [symmetric]
  have "clock w1 = clock w" by simp
  then have "(end_time - clock (sleep (1 / 2) w1)) * 2 = (end_time - clock w) * 2 - 1"
    by (simp add: sleep_def algebra_simps)
  moreover have "0 < (end_time - clock w) * 2" using 2 by simp
  ultimately show ?case by simp linarith
qed

declare wait_for_control_loop.simps [simp del]

definition wait_for_control ::
  "control_type \<Rightarrow> (string \<times> string) list \<Rightarrow> int option \<Rightarrow> rat option \<Rightarrow> control io" where
  "wait_for_control control_type search_params search_depth timeout w =
     (let search_depth = (case search_depth of None \<Rightarrow> 1 | Some d \<Rightarrow> d);
          timeout = (case timeout of None \<Rightarrow> 30 | Some t \<Rightarrow> t);
          end_time = clock w + timeout
      in wait_for_control_loop control_type search_params search_depth end_time w)"

text \<open>The loop of \<open>wait_for_control_to_disappear\<close>.\<close>

function wait_for_control_to_disappear_loop ::
  "control_type \<Rightarrow> (string \<times> string) list \<Rightarrow> int \<Rightarrow> rat \<Rightarrow> bool io" where
  "wait_for_control_to_disappear_loop control_type search_params search_depth end_time w =
     (if clock w < end_time then
        (case Exists 0 0 (new_control control_type None search_depth search_params) w of
           ((found, control), w1) \<Rightarrow>
             if \<not> found then (Inr True, w1)
             else wait_for_control_to_disappear_loop control_type search_params search_depth
                    end_time (sleep (1 / 2) w1))
      else (Inl (TimeoutError (not_disappeared_message search_params)), w))"
  by pat_completeness auto
termination
proof (relation "measure (\<lambda>(ct, sp, d, end_time, w). nat \<lceil>(end_time - clock w) * 2\<rceil>)",
    goal_cases)
  case 1
  show ?case by simp
next
  case (2 control_type search_params search_depth end_time w res w1 found control)
  have "clock (snd (Exists 0 0 c w)) = clock w" for c
    unfolding Exists_def by (subst Exists_loop.simps) (simp add: emit_def Let_def split: option.splits)
  from this [of "new_control control_type None search_depth search_params"] 2(2) [symmetric]
  have "clock w1 = clock w" by simp
  then have "(end_time - clock (sleep (1 / 2) w1)) * 2 = (end_time - clock w) * 2 - 1"
    by (simp add: sleep_def algebra_simps)
  moreover have "0 < (end_time - clock w) * 2" using 2 by simp
  ultimately show ?case by simp linarith
qed

declare wait_for_control_to_disappear_loop.simps [simp del]

definition wait_for_control_to_disappear ::
  "control_type \<Rightarrow> (string \<times> string) list \<Rightarrow> int option \<Rightarrow> rat option \<Rightarrow> bool io" where
  "wait_for_control_to_disappear control_type search_params search_depth timeout w =
     (let search_depth = (case search_depth of None \<Rightarrow> 1 | Some d \<Rightarrow> d);
          timeout = (case timeout of None \<Rightarrow> 30 | Some t \<Rightarrow> t);
          end_time = clock w + timeout
      in wait_for_control_to_disappear_loop control_type search_params search_depth end_time w)"

section \<open>The automation driver\<close>

text \<open>
  The object's fields, and its methods in the order of the source. A method that only
  reads the object takes it as an argument; \<open>login\<close>, which assigns \<open>app_window\<close>,
  also returns the object.
\<close>

record SolteqSundApp =
  app_path :: string
  username :: string
  password :: string
  ssn :: string
  connection_string :: string
  app_window :: "control option"

definition init :: "string \<Rightarrow> string \<Rightarrow> string \<Rightarrow> string \<Rightarrow> string \<Rightarrow> SolteqSundApp" where
  \<comment> \<open>\<open>SolteqSundApp.__init__\<close>\<close>
  "init app_path' username' password' ssn' db_connection_string =
     \<lparr>app_path = app_path', username = username', password = password', ssn = ssn',
      connection_string = db_connection_string, app_window = None\<rparr>"

definition replace :: "char \<Rightarrow> string \<Rightarrow> string \<Rightarrow> string" where
  \<comment> \<open>\<open>s.replace(old, new)\<close> for a pattern \<open>old\<close> of one character, the only use the driver
      makes of it\<close>
  "replace old new s = concat (map (\<lambda>c. if c = old then new else [c]) s)"

fun dec :: "nat \<Rightarrow> string" where
  "dec n = (if n < 10 then [''0123456789'' ! n] else dec (n div 10) @ [''0123456789'' ! (n mod 10)])"

definition zfill :: "nat \<Rightarrow> string \<Rightarrow> string" where
  "zfill width s = replicate (width - length s) CHR ''0'' @ s"

definition strftime_dmY :: "nat \<times> nat \<times> nat \<Rightarrow> string" where
  \<comment> \<open>\<open>strftime("%d-%m-%Y")\<close> of a date given as (day, month, year)\<close>
  "strftime_dmY date =
     (case date of (d, m, y) \<Rightarrow> zfill 2 (dec d) @ ''-'' @ zfill 2 (dec m) @ ''-'' @ zfill 4 (dec y))"

definition nl :: char where "nl = CHR 0x0A"
definition tab :: char where "tab = CHR 0x09"
definition quote :: char where "quote = CHR 0x27"

definition query_head :: string where
  "query_head =
      [nl] @
      ''            SELECT'' @ [tab] @ ''ds.DocumentId'' @ [nl] @
      ''                    ,ds.entityId'' @ [nl] @
      ''                    ,ds.OriginalFilename'' @ [nl] @
      ''                    ,ds.UniqueFilename'' @ [nl] @
      ''                    ,dss.Document_HistoryId'' @ [nl] @
      ''                    ,dss.Documented'' @ [nl] @
      ''                    ,dss.Decided'' @ [nl] @
      ''                    ,dss.DocumentStoreStatusId'' @ [nl] @
      ''            FROM DocumentStore ds'' @ [nl] @
      ''            JOIN Child c ON c.childId = ds.entityId'' @ [nl] @
      ''            JOIN ('' @ [nl] @
      ''                SELECT DocumentId, MAX(Document_HistoryId) AS MaxDocument_HistoryId'' @ [nl] @
      ''                FROM DocumentStoreStatus'' @ [nl] @
      ''                GROUP BY DocumentId'' @ [nl] @
      ''            ) maxHistory ON ds.DocumentId = maxHistory.DocumentId'' @ [nl] @
      ''            JOIN DocumentStoreStatus dss ON ds.DocumentId = dss.DocumentId AND dss.Document_HistoryId = maxHistory.MaxDocument_HistoryId'' @ [nl] @
      ''            WHERE'' @ [tab] @ ''c.cpr = '' @ [quote]"

definition query_mid :: string where
  "query_mid =
      [quote] @ [nl] @
      ''                    AND ds.OriginalFilename = '' @ [quote]"

definition query_tail :: string where
  "query_tail =
      [quote] @ [nl] @
      ''                    AND dss.DocumentStoreStatusId = 1'' @ [nl] @
      ''            ORDER BY Decided DESC'' @ [nl] @
      ''            ''"

definition journal_query :: "string \<Rightarrow> string \<Rightarrow> string" where
  \<comment> \<open>the f-string handed to \<open>crsr.execute\<close>, with its two interpolated values\<close>
  "journal_query cpr filename = query_head @ cpr @ query_mid @ filename @ query_tail"

definition connect :: "string \<Rightarrow> (string \<Rightarrow> string + table) io" where
  \<comment> \<open>\<open>pyodbc.connect\<close>; the server answers with a connection or with an error text\<close>
  "connect cs w =
     (let w1 = emit (SqlConnected cs) w in
      case sql_server w cs of
        Inl msg \<Rightarrow> (Inl (DatabaseError msg), w1)
      | Inr conn \<Rightarrow> (Inr conn, w1))"

definition execute :: "(string \<Rightarrow> string + table) \<Rightarrow> string \<Rightarrow> string list \<Rightarrow> table io" where
  \<comment> \<open>\<open>crsr.execute(sql, *params)\<close>\<close>
  "execute conn sql params w =
     (let w1 = emit (SqlExecuted sql params) w in
      case conn sql of
        Inl msg \<Rightarrow> (Inl (DatabaseError msg), w1)
      | Inr t \<Rightarrow> (Inr t, w1))"

definition is_journal_created :: "SolteqSundApp \<Rightarrow> bool io" where
  \<comment> \<open>\<open>SolteqSundApp._is_journal_created\<close>\<close>
  "is_journal_created self w =
     (let current_date = strftime_dmY (calendar w (clock w));
          filename = ''Udskrift af journal '' @ current_date @ ''.pdf''
      in bind (connect (connection_string self)) (\<lambda>conn.
         bind (execute conn (journal_query (replace CHR ''-'' [] (ssn self)) filename) []) (\<lambda>crsr.
           let rows' = rows crsr;
               columns = description crsr;
               result = map (\<lambda>row. map_of (rev (zip columns row))) rows';
               bool_result = (if result = [] then False else True)
           in (\<lambda>w'. (Inr bool_result, w')))) w)"


definition attribute_of_app_window :: "SolteqSundApp \<Rightarrow> string \<Rightarrow> control io" where
  \<comment> \<open>\<open>self.app_window.<attr>\<close>: an attribute of \<open>None\<close> does not exist\<close>
  "attribute_of_app_window self attr w =
     (case app_window self of
        None \<Rightarrow> (Inl (AttributeError attr), w)
      | Some c \<Rightarrow> (Inr c, w))"

definition login :: "SolteqSundApp \<Rightarrow> world \<Rightarrow> (error + unit) \<times> SolteqSundApp \<times> world" where
  "login self w =
     (case wait_for_control WindowControl [(''AutomationId'', ''frmLogin'')] (Some 2) None w of
        (Inl e, w1) \<Rightarrow> (Inl e, self, w1)
      | (Inr window, w1) \<Rightarrow>
          (let self1 = self\<lparr>app_window := Some window\<rparr> in
           case
             bind (SetFocus window None) (\<lambda>window.
             bind (SendKeys (child window EditControl [(''AutomationId'', ''textBoxLogin'')])
                     (username self1) (Some 0)) (\<lambda>username_box.
             bind (SendKeys (child window EditControl [(''AutomationId'', ''textBoxPassword'')])
                     (password self1) (Some 0)) (\<lambda>password_box.
             bind (SendKeys password_box ''{ENTER}'' (Some 0)) (\<lambda>password_box.
             wait_for_control WindowControl [(''AutomationId'', ''frmClient'')] (Some 2)
               (Some 60))))) w1
           of
             (Inl e, w2) \<Rightarrow> (Inl e, self1, w2)
           | (Inr window', w2) \<Rightarrow> (Inr (), self1\<lparr>app_window := Some window'\<rparr>, w2)))"

definition open_patient :: "SolteqSundApp \<Rightarrow> unit io" where
  "open_patient self =
     bind (attribute_of_app_window self ''SendKeys'') (\<lambda>window.
     bind (SendKeys window ''{Ctrl}o'' (Some 0)) (\<lambda>window.
     bind (wait_for_control EditControl [(''AutomationId'', ''TextBoxChildCPR'')] (Some 8) None) (\<lambda>_.
     bind (SetFocus (child window EditControl [(''AutomationId'', ''TextBoxChildCPR'')]) None)
       (\<lambda>ssn_textbox.
     bind (SendKeys ssn_textbox (ssn self) None) (\<lambda>ssn_textbox.
     bind (SendKeys ssn_textbox ''{ENTER}'' None) (\<lambda>ssn_textbox.
     bind (wait_for_control ListItemControl [(''Name'', ssn self)] (Some 12) None) (\<lambda>list_item.
     bind (DoubleClick list_item (Some 0)) (\<lambda>list_item.
     bind (wait_for_control TabItemControl [(''Name'', replace CHR ''-'' [] (ssn self))]
             (Some 4) None) (\<lambda>_.
     (\<lambda>w. (Inr (), w)))))))))))"

definition create_journal :: "SolteqSundApp \<Rightarrow> unit io" where
  "create_journal self =
     bind (attribute_of_app_window self ''SendKeys'') (\<lambda>window.
     bind (SendKeys window ''{Ctrl}{Shift}p'' (Some 0)) (\<lambda>window.
     bind (wait_for_control WindowControl [(''AutomationId'', ''frmViewBase'')] (Some 2) None)
       (\<lambda>print_journal_window.
     bind (Click (child print_journal_window PaneControl
                    [(''AutomationId'', ''buttonPrintToDocumentStore'')]) (Some 0))
       (\<lambda>print_journal_button.
     bind (wait_for_control_to_disappear WindowControl [(''AutomationId'', ''frmViewBase'')]
             (Some 2) (Some 60)) (\<lambda>_.
     bind (is_journal_created self) (\<lambda>created.
     (\<lambda>w. if \<not> created
          then (Inl (ValueError ''The document was not found in the SQL database.''), w)
          else (Inr (), w))))))))"

section \<open>The orchestration entry point\<close>







section \<open>Vocabulary of the statements\<close>

text \<open>
  The descriptor a wait resolves at every poll, and the trace a run of \<open>n\<close> polls leaves
  behind: one search of the descriptor every half time unit, starting at \<open>t\<close>.
\<close>

definition target :: "control_type \<Rightarrow> int \<Rightarrow> (string \<times> string) list \<Rightarrow> descriptor" where
  "target ct depth sp = descr (new_control ct None depth sp)"

definition polls :: "descriptor \<Rightarrow> rat \<Rightarrow> nat \<Rightarrow> (rat \<times> event) list" where
  "polls d t n = map (\<lambda>i. (t + of_nat i / 2, Searched d)) [0..<n]"

text \<open>Worlds for the worked examples: the clock at 0, a given screen history, no server.\<close>

definition world_at :: "(rat \<Rightarrow> descriptor \<Rightarrow> element option) \<Rightarrow> world" where
  "world_at g = \<lparr>clock = 0, gui = g, calendar = (\<lambda>t. (3, 11, 2026)),
                 sql_server = (\<lambda>cs. Inl []), trace = []\<rparr>"

definition login_window :: descriptor where
  "login_window = \<lparr>kind = WindowControl, searchFromControl = None, searchDepth = 2,
                    searchProperties = [(''AutomationId'', ''frmLogin'')]\<rparr>"

text \<open>
  What a step of the robot may do to the world: it leaves the screen history, the
  calendar and the server alone and only adds events to the trace. \<open>steps P w w'\<close> says
  so, with every added event satisfying \<open>P\<close>; \<open>emits P m Q\<close> says it of every run of the
  operation \<open>m\<close>, whose result, when there is one, satisfies \<open>Q\<close>.
\<close>

definition added :: "world \<Rightarrow> world \<Rightarrow> event list" where
  "added w w' = map snd (drop (length (trace w)) (trace w'))"

definition steps :: "(event \<Rightarrow> bool) \<Rightarrow> world \<Rightarrow> world \<Rightarrow> bool" where
  "steps P w w' \<longleftrightarrow>
     gui w' = gui w \<and> calendar w' = calendar w \<and> sql_server w' = sql_server w
     \<and> prefix (trace w) (trace w') \<and> list_all P (added w w')"

definition emits :: "(event \<Rightarrow> bool) \<Rightarrow> 'a io \<Rightarrow> ('a \<Rightarrow> bool) \<Rightarrow> bool" where
  "emits P m Q \<longleftrightarrow> (\<forall>w. steps P w (snd (m w)) \<and> (\<forall>x. fst (m w) = Inr x \<longrightarrow> Q x))"

text \<open>
  A world with a server that knows one statement, the journal query for the patient
  0101010101 on 3 November 2026, and a driver object for a given identifier.
\<close>

definition world_with ::
  "(rat \<Rightarrow> descriptor \<Rightarrow> element option) \<Rightarrow> (string \<Rightarrow> string + (string \<Rightarrow> string + table)) \<Rightarrow> world" where
  "world_with g server = \<lparr>clock = 0, gui = g, calendar = (\<lambda>t. (3, 11, 2026)),
                          sql_server = server, trace = []\<rparr>"

definition journal_connection :: "string list list \<Rightarrow> string \<Rightarrow> string + table" where
  "journal_connection found q =
     (if q = journal_query ''0101010101'' ''Udskrift af journal 03-11-2026.pdf''
      then Inr \<lparr>description = [''DocumentId'', ''entityId''], rows = found\<rparr>
      else Inl ''no such statement'')"

definition journal_server :: "string list list \<Rightarrow> string \<Rightarrow> string + (string \<Rightarrow> string + table)" where
  "journal_server found cs =
     (if cs = ''DSN=solteq'' then Inr (journal_connection found) else Inl ''login failed'')"

definition patient :: "string \<Rightarrow> control option \<Rightarrow> SolteqSundApp" where
  "patient identifier window =
     (init ''C:/SolteqSund.exe'' ''robot'' ''secret'' identifier ''DSN=solteq'')
       \<lparr>app_window := window\<rparr>"

text \<open>
  For \<open>create_journal\<close>: the descriptor of the print dialog, the handle of its store button
  below the dialog's element, the events the dialog part leaves behind when the dialog is
  found at poll \<open>j\<close> and the button at once, and the database events of a trace.
\<close>

definition print_dialog :: descriptor where
  "print_dialog = target WindowControl 2 [(''AutomationId'', ''frmViewBase'')]"

definition store_button :: "element \<Rightarrow> control" where
  "store_button dialog_element =
     child \<lparr>descr = print_dialog, element = Some dialog_element\<rparr> PaneControl
       [(''AutomationId'', ''buttonPrintToDocumentStore'')]"

definition database_events :: "world \<Rightarrow> event list" where
  "database_events w =
     filter (\<lambda>ev. case ev of SqlConnected _ \<Rightarrow> True | SqlExecuted _ _ \<Rightarrow> True | _ \<Rightarrow> False)
       (map snd (trace w))"

definition journal_ui_events :: "control \<Rightarrow> rat \<Rightarrow> nat \<Rightarrow> element \<Rightarrow> element \<Rightarrow> (rat \<times> event) list" where
  "journal_ui_events window t j dialog_element button_element =
     [(t, KeysSent window ''{Ctrl}{Shift}p'')]
     @ polls print_dialog t (Suc j)
     @ [(t + of_nat j / 2, Searched (descr (store_button dialog_element))),
        (t + of_nat j / 2, Clicked ((store_button dialog_element)\<lparr>element := Some button_element\<rparr>))]"


text \<open>
  A session window, and a screen on which every control exists, the print dialog only
  until a given instant.
\<close>

definition client_window :: control where
  "client_window = \<lparr>descr = target WindowControl 2 [(''AutomationId'', ''frmClient'')],
                     element = Some 1\<rparr>"

definition journal_screen :: "rat \<Rightarrow> rat \<Rightarrow> descriptor \<Rightarrow> element option" where
  "journal_screen closes_at t d =
     (if searchProperties d = [(''AutomationId'', ''frmViewBase'')]
      then (if t < closes_at then Some 5 else None)
      else Some 6)"

text \<open>
  Punctuation, in the words of the specification: the ASCII characters that are neither
  letters, digits, blanks nor control characters; and a string with its punctuation
  stripped.
\<close>

definition punctuation :: "char \<Rightarrow> bool" where
  "punctuation c = (let n = (of_char c :: nat) in
     (33 \<le> n \<and> n \<le> 47) \<or> (58 \<le> n \<and> n \<le> 64) \<or> (91 \<le> n \<and> n \<le> 96) \<or> (123 \<le> n \<and> n \<le> 126))"

definition punctuation_stripped :: "string \<Rightarrow> string" where
  "punctuation_stripped s = filter (\<lambda>c. \<not> punctuation c) s"







section \<open>The polling loops, step by step\<close>



lemma polls_0: "polls d t 0 = []"
  by (simp add: polls_def)

lemma polls_Suc: "polls d t (Suc n) = (t, Searched d) # polls d (t + 1 / 2) n"
proof -
  have "[0..<Suc n] = 0 # map Suc [0..<n]"
    by (simp add: upt_conv_Cons map_Suc_upt del: upt_Suc)
  then show ?thesis
    by (simp add: polls_def comp_def algebra_simps add_divide_distrib del: upt_Suc)
qed

lemma Exists_0_0:
  "Exists 0 0 c w =
     (case gui w (clock w) (descr c) of
        Some e \<Rightarrow> ((True, c\<lparr>element := Some e\<rparr>), emit (Searched (descr c)) w)
      | None \<Rightarrow> ((False, c\<lparr>element := None\<rparr>), emit (Searched (descr c)) w))"
  unfolding Exists_def by (subst Exists_loop.simps) (simp add: Let_def split: option.splits)


lemma loop_found:
  assumes "\<forall>i<k. gui w (clock w + of_nat i / 2) (target ct depth sp) = None"
    and "gui w (clock w + of_nat k / 2) (target ct depth sp) = Some e"
    and "clock w + of_nat k / 2 < end_time"
  shows "wait_for_control_loop ct sp depth end_time w =
           (Inr \<lparr>descr = target ct depth sp, element = Some e\<rparr>,
            w\<lparr>clock := clock w + of_nat k / 2,
              trace := trace w @ polls (target ct depth sp) (clock w) (Suc k)\<rparr>)"
  using assms
proof (induction k arbitrary: w)
  case 0
  then show ?case
    by (subst wait_for_control_loop.simps)
      (simp add: Exists_0_0 target_def new_control_def emit_def polls_def)
next
  case (Suc k)
  let ?w1 = "sleep (1 / 2) (emit (Searched (target ct depth sp)) w)"
  have lt: "clock w < end_time"
  proof -
    have "(0::rat) \<le> of_nat (Suc k) / 2" by simp
    with Suc.prems(3) show ?thesis by linarith
  qed
  have none: "gui w (clock w) (target ct depth sp) = None"
    using Suc.prems(1) [rule_format, of 0] by simp
  have step: "wait_for_control_loop ct sp depth end_time w =
                wait_for_control_loop ct sp depth end_time ?w1"
    using lt none
    by (subst wait_for_control_loop.simps) (simp add: Exists_0_0 target_def)
  have clk: "clock ?w1 = clock w + 1 / 2" and g: "gui ?w1 = gui w"
    and tr: "trace ?w1 = trace w @ [(clock w, Searched (target ct depth sp))]"
    by (simp_all add: sleep_def emit_def)
  have shift: "clock ?w1 + of_nat i / 2 = clock w + of_nat (Suc i) / 2" for i
    by (simp add: clk add_divide_distrib)
  have "wait_for_control_loop ct sp depth end_time ?w1 =
          (Inr \<lparr>descr = target ct depth sp, element = Some e\<rparr>,
           ?w1\<lparr>clock := clock ?w1 + of_nat k / 2,
               trace := trace ?w1 @ polls (target ct depth sp) (clock ?w1) (Suc k)\<rparr>)"
  proof (rule Suc.IH)
    show "\<forall>i<k. gui ?w1 (clock ?w1 + of_nat i / 2) (target ct depth sp) = None"
      using Suc.prems(1) unfolding g shift by auto
    show "gui ?w1 (clock ?w1 + of_nat k / 2) (target ct depth sp) = Some e"
      using Suc.prems(2) unfolding g shift .
    show "clock ?w1 + of_nat k / 2 < end_time"
      using Suc.prems(3) unfolding shift .
  qed
  also have "\<dots> = (Inr \<lparr>descr = target ct depth sp, element = Some e\<rparr>,
            w\<lparr>clock := clock w + of_nat (Suc k) / 2,
              trace := trace w @ polls (target ct depth sp) (clock w) (Suc (Suc k))\<rparr>)"
    unfolding shift tr
    by (simp add: polls_Suc [of _ "clock w"] clk sleep_def emit_def)
  finally show ?case using step by simp
qed

lemma loop_timeout:
  assumes "\<forall>i. clock w + of_nat i / 2 < end_time \<longrightarrow>
             gui w (clock w + of_nat i / 2) (target ct depth sp) = None"
    and "n = nat \<lceil>(end_time - clock w) * 2\<rceil>"
  shows "wait_for_control_loop ct sp depth end_time w =
           (Inl (TimeoutError (not_found_message sp)),
            w\<lparr>clock := clock w + of_nat n / 2,
              trace := trace w @ polls (target ct depth sp) (clock w) n\<rparr>)"
  using assms
proof (induction n arbitrary: w)
  case 0
  then have "\<lceil>(end_time - clock w) * 2\<rceil> \<le> 0" by simp
  then have "(end_time - clock w) * 2 \<le> 0" by (simp add: ceiling_le_iff)
  then have "\<not> clock w < end_time" by simp
  then show ?case
    by (subst wait_for_control_loop.simps) (simp add: polls_0)
next
  case (Suc n)
  let ?w1 = "sleep (1 / 2) (emit (Searched (target ct depth sp)) w)"
  from Suc.prems(2) have ceil: "\<lceil>(end_time - clock w) * 2\<rceil> = int (Suc n)" by linarith
  then have "0 < \<lceil>(end_time - clock w) * 2\<rceil>" by simp
  then have lt: "clock w < end_time" by (simp add: less_ceiling_iff)
  have none: "gui w (clock w) (target ct depth sp) = None"
    using Suc.prems(1) [rule_format, of 0] lt by simp
  have step: "wait_for_control_loop ct sp depth end_time w =
                wait_for_control_loop ct sp depth end_time ?w1"
    using lt none
    by (subst wait_for_control_loop.simps) (simp add: Exists_0_0 target_def)
  have clk: "clock ?w1 = clock w + 1 / 2" and g: "gui ?w1 = gui w"
    and tr: "trace ?w1 = trace w @ [(clock w, Searched (target ct depth sp))]"
    by (simp_all add: sleep_def emit_def)
  have shift: "clock ?w1 + of_nat i / 2 = clock w + of_nat (Suc i) / 2" for i
    by (simp add: clk add_divide_distrib)
  have "(end_time - clock ?w1) * 2 = (end_time - clock w) * 2 - 1"
    by (simp add: clk algebra_simps)
  then have "\<lceil>(end_time - clock ?w1) * 2\<rceil> = \<lceil>(end_time - clock w) * 2\<rceil> - 1"
    by (simp only: ceiling_diff_one)
  then have n: "n = nat \<lceil>(end_time - clock ?w1) * 2\<rceil>"
    by (simp only: ceil)
  have "wait_for_control_loop ct sp depth end_time ?w1 =
          (Inl (TimeoutError (not_found_message sp)),
           ?w1\<lparr>clock := clock ?w1 + of_nat n / 2,
               trace := trace ?w1 @ polls (target ct depth sp) (clock ?w1) n\<rparr>)"
  proof (rule Suc.IH [OF _ n])
    show "\<forall>i. clock ?w1 + of_nat i / 2 < end_time \<longrightarrow>
            gui ?w1 (clock ?w1 + of_nat i / 2) (target ct depth sp) = None"
      using Suc.prems(1) unfolding g shift by blast
  qed
  also have "\<dots> = (Inl (TimeoutError (not_found_message sp)),
            w\<lparr>clock := clock w + of_nat (Suc n) / 2,
              trace := trace w @ polls (target ct depth sp) (clock w) (Suc n)\<rparr>)"
    unfolding shift tr
    by (simp add: polls_Suc [of _ "clock w"] clk sleep_def emit_def)
  finally show ?case using step by simp
qed

lemma gone_found:
  assumes "\<forall>i<k. gui w (clock w + of_nat i / 2) (target ct depth sp) \<noteq> None"
    and "gui w (clock w + of_nat k / 2) (target ct depth sp) = None"
    and "clock w + of_nat k / 2 < end_time"
  shows "wait_for_control_to_disappear_loop ct sp depth end_time w =
           (Inr True,
            w\<lparr>clock := clock w + of_nat k / 2,
              trace := trace w @ polls (target ct depth sp) (clock w) (Suc k)\<rparr>)"
  using assms
proof (induction k arbitrary: w)
  case 0
  then show ?case
    by (subst wait_for_control_to_disappear_loop.simps)
      (simp add: Exists_0_0 target_def emit_def polls_def)
next
  case (Suc k)
  let ?w1 = "sleep (1 / 2) (emit (Searched (target ct depth sp)) w)"
  have lt: "clock w < end_time"
  proof -
    have "(0::rat) \<le> of_nat (Suc k) / 2" by simp
    with Suc.prems(3) show ?thesis by linarith
  qed
  have some: "gui w (clock w) (target ct depth sp) \<noteq> None"
    using Suc.prems(1) [rule_format, of 0] by simp
  have step: "wait_for_control_to_disappear_loop ct sp depth end_time w =
                wait_for_control_to_disappear_loop ct sp depth end_time ?w1"
    using lt some
    by (subst wait_for_control_to_disappear_loop.simps)
      (auto simp add: Exists_0_0 target_def)
  have clk: "clock ?w1 = clock w + 1 / 2" and g: "gui ?w1 = gui w"
    and tr: "trace ?w1 = trace w @ [(clock w, Searched (target ct depth sp))]"
    by (simp_all add: sleep_def emit_def)
  have shift: "clock ?w1 + of_nat i / 2 = clock w + of_nat (Suc i) / 2" for i
    by (simp add: clk add_divide_distrib)
  have "wait_for_control_to_disappear_loop ct sp depth end_time ?w1 =
          (Inr True,
           ?w1\<lparr>clock := clock ?w1 + of_nat k / 2,
               trace := trace ?w1 @ polls (target ct depth sp) (clock ?w1) (Suc k)\<rparr>)"
  proof (rule Suc.IH)
    show "\<forall>i<k. gui ?w1 (clock ?w1 + of_nat i / 2) (target ct depth sp) \<noteq> None"
      using Suc.prems(1) unfolding g shift by auto
    show "gui ?w1 (clock ?w1 + of_nat k / 2) (target ct depth sp) = None"
      using Suc.prems(2) unfolding g shift .
    show "clock ?w1 + of_nat k / 2 < end_time"
      using Suc.prems(3) unfolding shift .
  qed
  also have "\<dots> = (Inr True,
            w\<lparr>clock := clock w + of_nat (Suc k) / 2,
              trace := trace w @ polls (target ct depth sp) (clock w) (Suc (Suc k))\<rparr>)"
    unfolding shift tr
    by (simp add: polls_Suc [of _ "clock w"] clk sleep_def emit_def)
  finally show ?case using step by simp
qed

lemma gone_timeout:
  assumes "\<forall>i. clock w + of_nat i / 2 < end_time \<longrightarrow>
             gui w (clock w + of_nat i / 2) (target ct depth sp) \<noteq> None"
    and "n = nat \<lceil>(end_time - clock w) * 2\<rceil>"
  shows "wait_for_control_to_disappear_loop ct sp depth end_time w =
           (Inl (TimeoutError (not_disappeared_message sp)),
            w\<lparr>clock := clock w + of_nat n / 2,
              trace := trace w @ polls (target ct depth sp) (clock w) n\<rparr>)"
  using assms
proof (induction n arbitrary: w)
  case 0
  then have "\<lceil>(end_time - clock w) * 2\<rceil> \<le> 0" by simp
  then have "(end_time - clock w) * 2 \<le> 0" by (simp add: ceiling_le_iff)
  then have "\<not> clock w < end_time" by simp
  then show ?case
    by (subst wait_for_control_to_disappear_loop.simps) (simp add: polls_0)
next
  case (Suc n)
  let ?w1 = "sleep (1 / 2) (emit (Searched (target ct depth sp)) w)"
  from Suc.prems(2) have ceil: "\<lceil>(end_time - clock w) * 2\<rceil> = int (Suc n)" by linarith
  then have "0 < \<lceil>(end_time - clock w) * 2\<rceil>" by simp
  then have lt: "clock w < end_time" by (simp add: less_ceiling_iff)
  have some: "gui w (clock w) (target ct depth sp) \<noteq> None"
    using Suc.prems(1) [rule_format, of 0] lt by simp
  have step: "wait_for_control_to_disappear_loop ct sp depth end_time w =
                wait_for_control_to_disappear_loop ct sp depth end_time ?w1"
    using lt some
    by (subst wait_for_control_to_disappear_loop.simps)
      (auto simp add: Exists_0_0 target_def)
  have clk: "clock ?w1 = clock w + 1 / 2" and g: "gui ?w1 = gui w"
    and tr: "trace ?w1 = trace w @ [(clock w, Searched (target ct depth sp))]"
    by (simp_all add: sleep_def emit_def)
  have shift: "clock ?w1 + of_nat i / 2 = clock w + of_nat (Suc i) / 2" for i
    by (simp add: clk add_divide_distrib)
  have "(end_time - clock ?w1) * 2 = (end_time - clock w) * 2 - 1"
    by (simp add: clk algebra_simps)
  then have "\<lceil>(end_time - clock ?w1) * 2\<rceil> = \<lceil>(end_time - clock w) * 2\<rceil> - 1"
    by (simp only: ceiling_diff_one)
  then have n: "n = nat \<lceil>(end_time - clock ?w1) * 2\<rceil>"
    by (simp only: ceil)
  have "wait_for_control_to_disappear_loop ct sp depth end_time ?w1 =
          (Inl (TimeoutError (not_disappeared_message sp)),
           ?w1\<lparr>clock := clock ?w1 + of_nat n / 2,
               trace := trace ?w1 @ polls (target ct depth sp) (clock ?w1) n\<rparr>)"
  proof (rule Suc.IH [OF _ n])
    show "\<forall>i. clock ?w1 + of_nat i / 2 < end_time \<longrightarrow>
            gui ?w1 (clock ?w1 + of_nat i / 2) (target ct depth sp) \<noteq> None"
      using Suc.prems(1) unfolding g shift by blast
  qed
  also have "\<dots> = (Inl (TimeoutError (not_disappeared_message sp)),
            w\<lparr>clock := clock w + of_nat (Suc n) / 2,
              trace := trace w @ polls (target ct depth sp) (clock w) (Suc n)\<rparr>)"
    unfolding shift tr
    by (simp add: polls_Suc [of _ "clock w"] clk sleep_def emit_def)
  finally show ?case using step by simp
qed


lemma first_index: "\<exists>i::nat. P i \<Longrightarrow> \<exists>k. P k \<and> (\<forall>i<k. \<not> P i)"
  by (meson exists_least_iff)

lemma wait_for_control_unfold:
  "wait_for_control ct sp depth timeout w =
     wait_for_control_loop ct sp (case depth of None \<Rightarrow> 1 | Some n \<Rightarrow> n)
       (clock w + (case timeout of None \<Rightarrow> 30 | Some t \<Rightarrow> t)) w"
  by (simp add: wait_for_control_def Let_def)

lemma wait_for_control_to_disappear_unfold:
  "wait_for_control_to_disappear ct sp depth timeout w =
     wait_for_control_to_disappear_loop ct sp (case depth of None \<Rightarrow> 1 | Some n \<Rightarrow> n)
       (clock w + (case timeout of None \<Rightarrow> 30 | Some t \<Rightarrow> t)) w"
  by (simp add: wait_for_control_to_disappear_def Let_def)


section \<open>Traces of the operations\<close>

lemma steps_refl: "steps P w w"
  by (simp add: steps_def added_def)

lemma steps_trans:
  assumes "steps P w w1" and "steps P w1 w2"
  shows "steps P w w2"
proof -
  from assms(1) obtain es where es: "trace w1 = trace w @ es"
    by (auto simp: steps_def prefix_def)
  from assms(2) obtain fs where fs: "trace w2 = trace w1 @ fs"
    by (auto simp: steps_def prefix_def)
  from assms es fs show ?thesis
    by (simp add: steps_def added_def)
qed

lemma steps_mono: "steps P w w' \<Longrightarrow> (\<And>ev. P ev \<Longrightarrow> Q ev) \<Longrightarrow> steps Q w w'"
  by (auto simp: steps_def list_all_iff)

lemma steps_emit: "P ev \<Longrightarrow> steps P w (emit ev w)"
  by (simp add: steps_def added_def emit_def)

lemma steps_emit_sleep: "P ev \<Longrightarrow> steps P w (sleep d (emit ev w))"
  by (simp add: steps_def added_def emit_def sleep_def)

lemma emitsI:
  assumes "\<And>w. steps P w (snd (m w))" and "\<And>w x. fst (m w) = Inr x \<Longrightarrow> Q x"
  shows "emits P m Q"
  using assms by (simp add: emits_def)

lemma emits_steps: "emits P m Q \<Longrightarrow> steps P w (snd (m w))"
  by (simp add: emits_def)

lemma emits_post: "emits P m Q \<Longrightarrow> m w = (Inr x, w') \<Longrightarrow> Q x"
  by (simp add: emits_def) (metis fst_conv)

lemma emits_bind:
  assumes "emits P m Q" and "\<And>x. Q x \<Longrightarrow> emits P (f x) R"
  shows "emits P (bind m f) R"
proof (rule emitsI)
  fix w
  obtain r w1 where m: "m w = (r, w1)" by (cases "m w")
  have s1: "steps P w w1" using emits_steps [OF assms(1), of w] m by simp
  show "steps P w (snd (bind m f w))"
  proof (cases r)
    case (Inl e)
    with m s1 show ?thesis by (simp add: bind_def)
  next
    case (Inr x)
    with m assms(1) have "Q x" by (auto dest: emits_post)
    then have "steps P w1 (snd (f x w1))" using assms(2) emits_steps by blast
    with s1 have "steps P w (snd (f x w1))" by (rule steps_trans)
    with m Inr show ?thesis by (simp add: bind_def)
  qed
  fix y
  assume "fst (bind m f w) = Inr y"
  with m obtain x where x: "r = Inr x" and fx: "fst (f x w1) = Inr y"
    by (cases r) (auto simp: bind_def)
  from m x assms(1) have "Q x" by (auto dest: emits_post)
  then have "emits P (f x) R" by (rule assms(2))
  with fx show "R y" by (simp add: emits_def)
qed

lemma emits_weaken:
  assumes "emits P m Q" and "\<And>ev. P ev \<Longrightarrow> P' ev" and "\<And>x. Q x \<Longrightarrow> Q' x"
  shows "emits P' m Q'"
  using assms by (auto simp: emits_def intro: steps_mono)

lemma Exists_loop_steps:
  "steps (\<lambda>ev. ev = Searched (descr c)) w (snd (Exists_loop deadline interval c w))
   \<and> descr (snd (fst (Exists_loop deadline interval c w))) = descr c
   \<and> (fst (fst (Exists_loop deadline interval c w)) \<longrightarrow>
        element (snd (fst (Exists_loop deadline interval c w))) \<noteq> None)"
proof (induction deadline interval c w rule: Exists_loop.induct)
  case (1 deadline interval c w)
  let ?w1 = "emit (Searched (descr c)) w"
  have s1: "steps (\<lambda>ev. ev = Searched (descr c)) w ?w1" by (rule steps_emit) simp
  show ?case
  proof (cases "gui w (clock w) (descr c)")
    case (Some e)
    then have "Exists_loop deadline interval c w = ((True, c\<lparr>element := Some e\<rparr>), ?w1)"
      by (subst Exists_loop.simps) (simp add: Let_def)
    then show ?thesis using s1 by simp
  next
    case None
    show ?thesis
    proof (cases "deadline - clock w > 0 \<and> interval > 0")
      case True
      let ?w2 = "sleep (min (deadline - clock w) interval) ?w1"
      have s2: "steps (\<lambda>ev. ev = Searched (descr c)) w ?w2"
        by (rule steps_emit_sleep) simp
      have eq: "Exists_loop deadline interval c w = Exists_loop deadline interval c ?w2"
        using None True by (subst Exists_loop.simps) (simp add: Let_def)
      from "1.IH" [OF refl None refl] True
      have ih: "steps (\<lambda>ev. ev = Searched (descr c)) ?w2 (snd (Exists_loop deadline interval c ?w2))
        \<and> descr (snd (fst (Exists_loop deadline interval c ?w2))) = descr c
        \<and> (fst (fst (Exists_loop deadline interval c ?w2)) \<longrightarrow>
        element (snd (fst (Exists_loop deadline interval c ?w2))) \<noteq> None)"
        by simp
      show ?thesis unfolding eq using ih steps_trans [OF s2] by blast
    next
      case False
      then have "Exists_loop deadline interval c w = ((False, c\<lparr>element := None\<rparr>), ?w1)"
        using None by (subst Exists_loop.simps) (auto simp add: Let_def)
      then show ?thesis using s1 by simp
    qed
  qed
qed


lemma emits_Element:
  fixes c :: control
  shows "emits (\<lambda>ev. ev = Searched (descr c)) (Element c) (\<lambda>c'. descr c' = descr c \<and> element c' \<noteq> None)"
proof (rule emitsI)
  fix w
  show "steps (\<lambda>ev. ev = Searched (descr c)) w (snd (Element c w))"
    using Exists_loop_steps [of c w "clock w + TIME_OUT_SECOND" 1]
    by (auto simp: Element_def Exists_def steps_refl split: option.splits prod.splits)
  fix c'
  assume "fst (Element c w) = Inr c'"
  then show "descr c' = descr c \<and> element c' \<noteq> None"
    using Exists_loop_steps [of c w "clock w + TIME_OUT_SECOND" 1]
    by (auto simp: Element_def Exists_def split: option.splits prod.splits if_splits)
qed

lemma emits_action:
  fixes f :: "control \<Rightarrow> control io" and ev :: "control \<Rightarrow> event" and c :: control
  assumes "\<And>c' w. f c w = bind (Element c) (\<lambda>c' w. (Inr c', sleep d (emit (ev c') w))) w"
  shows "emits (\<lambda>e. e = Searched (descr c) \<or> (\<exists>c'. descr c' = descr c \<and> element c' \<noteq> None \<and> e = ev c'))
           (f c) (\<lambda>c'. descr c' = descr c \<and> element c' \<noteq> None)"
proof -
  let ?P = "\<lambda>e. e = Searched (descr c) \<or> (\<exists>c'. descr c' = descr c \<and> element c' \<noteq> None \<and> e = ev c')"
  have "emits ?P (bind (Element c) (\<lambda>c' w. (Inr c', sleep d (emit (ev c') w))))
          (\<lambda>c'. descr c' = descr c \<and> element c' \<noteq> None)"
  proof (rule emits_bind)
    show "emits ?P (Element c) (\<lambda>c'. descr c' = descr c \<and> element c' \<noteq> None)"
      by (rule emits_weaken [OF emits_Element]) auto
    fix x :: control
    assume x: "descr x = descr c \<and> element x \<noteq> None"
    show "emits ?P (\<lambda>w. (Inr x, sleep d (emit (ev x) w))) (\<lambda>c'. descr c' = descr c \<and> element c' \<noteq> None)"
    proof (rule emitsI)
      fix w
      show "steps ?P w (snd (Inr x, sleep d (emit (ev x) w)))"
        using x by (auto intro!: steps_emit_sleep)
      fix c'
      assume "fst (Inr x, sleep d (emit (ev x) w)) = Inr c'"
      with x show "descr c' = descr c \<and> element c' \<noteq> None" by simp
    qed
  qed
  moreover have "f c = bind (Element c) (\<lambda>c' w. (Inr c', sleep d (emit (ev c') w)))"
    using assms by (intro ext)
  ultimately show ?thesis by simp
qed

lemma emits_SendKeys:
  "emits (\<lambda>e. e = Searched (descr c)
              \<or> (\<exists>c'. descr c' = descr c \<and> element c' \<noteq> None \<and> e = KeysSent c' text))
     (SendKeys c text waitTime) (\<lambda>c'. descr c' = descr c \<and> element c' \<noteq> None)"
  by (rule emits_action [where f = "\<lambda>c. SendKeys c text waitTime"
        and ev = "\<lambda>c'. KeysSent c' text" and d = "wait_time waitTime"])
    (simp add: SendKeys_def)

lemma emits_SetFocus:
  "emits (\<lambda>e. e = Searched (descr c)
              \<or> (\<exists>c'. descr c' = descr c \<and> element c' \<noteq> None \<and> e = Focused c'))
     (SetFocus c waitTime) (\<lambda>c'. descr c' = descr c \<and> element c' \<noteq> None)"
  by (rule emits_action [where f = "\<lambda>c. SetFocus c waitTime"
        and ev = Focused and d = "wait_time waitTime"])
    (simp add: SetFocus_def)


lemma emits_DoubleClick:
  "emits (\<lambda>e. e = Searched (descr c)
              \<or> (\<exists>c'. descr c' = descr c \<and> element c' \<noteq> None \<and> e = DoubleClicked c'))
     (DoubleClick c waitTime) (\<lambda>c'. descr c' = descr c \<and> element c' \<noteq> None)"
  by (rule emits_action [where f = "\<lambda>c. DoubleClick c waitTime"
        and ev = DoubleClicked and d = "wait_time waitTime"])
    (simp add: DoubleClick_def)

lemma steps_polls:
  "steps (\<lambda>ev. ev = Searched d) w (w\<lparr>clock := t, trace := trace w @ polls d t0 n\<rparr>)"
  by (simp add: steps_def added_def polls_def list_all_iff)

lemma wait_for_control_cases:
  fixes T :: rat
  assumes "d = target control_type (case search_depth of None \<Rightarrow> 1 | Some n \<Rightarrow> n) search_params"
    and "T = (case timeout of None \<Rightarrow> 30 | Some t \<Rightarrow> t)"
  obtains (found) k e where "\<forall>i<k. gui w (clock w + of_nat i / 2) d = None"
      "gui w (clock w + of_nat k / 2) d = Some e" "of_nat k / 2 < T"
      "wait_for_control control_type search_params search_depth timeout w =
         (Inr \<lparr>descr = d, element = Some e\<rparr>,
          w\<lparr>clock := clock w + of_nat k / 2, trace := trace w @ polls d (clock w) (Suc k)\<rparr>)"
  | (never) "\<forall>i. of_nat i / 2 < T \<longrightarrow> gui w (clock w + of_nat i / 2) d = None"
      "wait_for_control control_type search_params search_depth timeout w =
         (Inl (TimeoutError (not_found_message search_params)),
          w\<lparr>clock := clock w + of_nat (nat \<lceil>T * 2\<rceil>) / 2,
            trace := trace w @ polls d (clock w) (nat \<lceil>T * 2\<rceil>)\<rparr>)"
proof (cases "\<forall>i. of_nat i / 2 < T \<longrightarrow> gui w (clock w + of_nat i / 2) d = None")
  case True
  have "wait_for_control control_type search_params search_depth timeout w =
         (Inl (TimeoutError (not_found_message search_params)),
          w\<lparr>clock := clock w + of_nat (nat \<lceil>T * 2\<rceil>) / 2,
            trace := trace w @ polls d (clock w) (nat \<lceil>T * 2\<rceil>)\<rparr>)"
    unfolding wait_for_control_unfold assms(1)
    by (rule loop_timeout) (use True assms in auto)
  with True show ?thesis by (rule never)
next
  case False
  then have "\<exists>i. of_nat i / 2 < T \<and> gui w (clock w + of_nat i / 2) d \<noteq> None" by blast
  from first_index [OF this] obtain k where k: "of_nat k / 2 < T"
    "gui w (clock w + of_nat k / 2) d \<noteq> None"
    "\<forall>i<k. \<not> (of_nat i / 2 < T \<and> gui w (clock w + of_nat i / 2) d \<noteq> None)"
    by blast
  have lt: "of_nat i / 2 < T" if "i < k" for i
  proof -
    have "(of_nat i :: rat) / 2 \<le> of_nat k / 2" using that by simp
    with k(1) show ?thesis by linarith
  qed
  have none: "\<forall>i<k. gui w (clock w + of_nat i / 2) d = None"
  proof (intro allI impI)
    fix i
    assume "i < k"
    with k(3) lt [of i] show "gui w (clock w + of_nat i / 2) d = None" by simp
  qed
  from k(2) obtain e where e: "gui w (clock w + of_nat k / 2) d = Some e" by blast
  have "wait_for_control control_type search_params search_depth timeout w =
         (Inr \<lparr>descr = d, element = Some e\<rparr>,
          w\<lparr>clock := clock w + of_nat k / 2, trace := trace w @ polls d (clock w) (Suc k)\<rparr>)"
    unfolding wait_for_control_unfold assms(1)
    by (rule loop_found) (use none e k(1) assms in auto)
  with none e k(1) show ?thesis by (rule found)
qed

lemma wait_for_control_to_disappear_cases:
  fixes T :: rat
  assumes "d = target control_type (case search_depth of None \<Rightarrow> 1 | Some n \<Rightarrow> n) search_params"
    and "T = (case timeout of None \<Rightarrow> 30 | Some t \<Rightarrow> t)"
  obtains (gone) k where "\<forall>i<k. gui w (clock w + of_nat i / 2) d \<noteq> None"
      "gui w (clock w + of_nat k / 2) d = None" "of_nat k / 2 < T"
      "wait_for_control_to_disappear control_type search_params search_depth timeout w =
         (Inr True,
          w\<lparr>clock := clock w + of_nat k / 2, trace := trace w @ polls d (clock w) (Suc k)\<rparr>)"
  | (stays) "\<forall>i. of_nat i / 2 < T \<longrightarrow> gui w (clock w + of_nat i / 2) d \<noteq> None"
      "wait_for_control_to_disappear control_type search_params search_depth timeout w =
         (Inl (TimeoutError (not_disappeared_message search_params)),
          w\<lparr>clock := clock w + of_nat (nat \<lceil>T * 2\<rceil>) / 2,
            trace := trace w @ polls d (clock w) (nat \<lceil>T * 2\<rceil>)\<rparr>)"
proof (cases "\<forall>i. of_nat i / 2 < T \<longrightarrow> gui w (clock w + of_nat i / 2) d \<noteq> None")
  case True
  have "wait_for_control_to_disappear control_type search_params search_depth timeout w =
         (Inl (TimeoutError (not_disappeared_message search_params)),
          w\<lparr>clock := clock w + of_nat (nat \<lceil>T * 2\<rceil>) / 2,
            trace := trace w @ polls d (clock w) (nat \<lceil>T * 2\<rceil>)\<rparr>)"
    unfolding wait_for_control_to_disappear_unfold assms(1)
    by (rule gone_timeout) (use True assms in auto)
  with True show ?thesis by (rule stays)
next
  case False
  then have "\<exists>i. of_nat i / 2 < T \<and> gui w (clock w + of_nat i / 2) d = None" by simp
  from first_index [OF this] obtain k where k: "of_nat k / 2 < T"
    "gui w (clock w + of_nat k / 2) d = None"
    "\<forall>i<k. \<not> (of_nat i / 2 < T \<and> gui w (clock w + of_nat i / 2) d = None)"
    by blast
  have lt: "of_nat i / 2 < T" if "i < k" for i
  proof -
    have "(of_nat i :: rat) / 2 \<le> of_nat k / 2" using that by simp
    with k(1) show ?thesis by linarith
  qed
  have some: "\<forall>i<k. gui w (clock w + of_nat i / 2) d \<noteq> None"
  proof (intro allI impI)
    fix i
    assume "i < k"
    with k(3) lt [of i] show "gui w (clock w + of_nat i / 2) d \<noteq> None" by simp
  qed
  have "wait_for_control_to_disappear control_type search_params search_depth timeout w =
         (Inr True,
          w\<lparr>clock := clock w + of_nat k / 2, trace := trace w @ polls d (clock w) (Suc k)\<rparr>)"
    unfolding wait_for_control_to_disappear_unfold assms(1)
    by (rule gone_found) (use some k assms in auto)
  with some k(2,1) show ?thesis by (rule gone)
qed

lemma emits_wait_for_control:
  assumes "d = target control_type (case search_depth of None \<Rightarrow> 1 | Some n \<Rightarrow> n) search_params"
  shows "emits (\<lambda>ev. ev = Searched d)
           (wait_for_control control_type search_params search_depth timeout)
           (\<lambda>c. descr c = d \<and> element c \<noteq> None)"
proof (rule emitsI)
  fix w
  show "steps (\<lambda>ev. ev = Searched d) w
          (snd (wait_for_control control_type search_params search_depth timeout w))"
    by (rule wait_for_control_cases [OF assms refl, of w timeout]) (simp_all add: steps_polls)
  fix c
  assume "fst (wait_for_control control_type search_params search_depth timeout w) = Inr c"
  then show "descr c = d \<and> element c \<noteq> None"
    by (rule_tac wait_for_control_cases [OF assms refl, of w timeout]) auto
qed


section \<open>The database check\<close>

lemma is_journal_created_run:
  "is_journal_created self w =
     (let q = journal_query (replace CHR ''-'' [] (ssn self))
                (''Udskrift af journal '' @ strftime_dmY (calendar w (clock w)) @ ''.pdf'');
          w1 = emit (SqlConnected (connection_string self)) w;
          w2 = emit (SqlExecuted q []) w1
      in case sql_server w (connection_string self) of
           Inl msg \<Rightarrow> (Inl (DatabaseError msg), w1)
         | Inr conn \<Rightarrow>
             (case conn q of
                Inl msg \<Rightarrow> (Inl (DatabaseError msg), w2)
              | Inr t \<Rightarrow> (Inr (rows t \<noteq> []), w2)))"
  by (simp add: is_journal_created_def connect_def execute_def bind_def Let_def
      split: sum.splits)

lemma replace_delete: "replace c [] s = filter (\<lambda>x. x \<noteq> c) s"
  by (induction s) (simp_all add: replace_def)


section \<open>The steps of create_journal\<close>

lemma Element_resolved: "element c = Some e \<Longrightarrow> Element c w = (Inr c, w)"
  by (simp add: Element_def)

lemma Element_found_now:
  assumes "element c = None" and "gui w (clock w) (descr c) = Some e"
  shows "Element c w = (Inr (c\<lparr>element := Some e\<rparr>), emit (Searched (descr c)) w)"
proof -
  have "Exists TIME_OUT_SECOND 1 c w = ((True, c\<lparr>element := Some e\<rparr>), emit (Searched (descr c)) w)"
    unfolding Exists_def using assms(2) by (subst Exists_loop.simps) (simp add: Let_def)
  with assms(1) show ?thesis by (simp add: Element_def)
qed

lemma sleep_0: "sleep 0 w = w"
  by (simp add: sleep_def)

lemma polls_none_database: "filter (\<lambda>ev. case ev of SqlConnected _ \<Rightarrow> True | SqlExecuted _ _ \<Rightarrow> True | _ \<Rightarrow> False)
       (map snd (polls d t n)) = []"
  by (simp add: polls_def filter_empty_conv)

lemma wait_for_control_found:
  assumes "\<forall>i<k. gui w (clock w + of_nat i / 2) d = None"
    and "gui w (clock w + of_nat k / 2) d = Some e"
    and "of_nat k / 2 < (case timeout of None \<Rightarrow> 30 | Some t \<Rightarrow> t)"
    and "d = target control_type (case search_depth of None \<Rightarrow> 1 | Some n \<Rightarrow> n) search_params"
  shows "wait_for_control control_type search_params search_depth timeout w =
           (Inr \<lparr>descr = d, element = Some e\<rparr>,
            w\<lparr>clock := clock w + of_nat k / 2, trace := trace w @ polls d (clock w) (Suc k)\<rparr>)"
  unfolding wait_for_control_unfold assms(4)
  by (rule loop_found) (use assms in auto)


lemma wait_for_control_to_disappear_stays:
  assumes "\<forall>i. of_nat i / 2 < T \<longrightarrow> gui w (clock w + of_nat i / 2) d \<noteq> None"
    and "T = (case timeout of None \<Rightarrow> 30 | Some t \<Rightarrow> t)"
    and "d = target control_type (case search_depth of None \<Rightarrow> 1 | Some n \<Rightarrow> n) search_params"
  shows "wait_for_control_to_disappear control_type search_params search_depth timeout w =
           (Inl (TimeoutError (not_disappeared_message search_params)),
            w\<lparr>clock := clock w + of_nat (nat \<lceil>T * 2\<rceil>) / 2,
              trace := trace w @ polls d (clock w) (nat \<lceil>T * 2\<rceil>)\<rparr>)"
  unfolding wait_for_control_to_disappear_unfold assms(3)
  by (rule gone_timeout) (use assms in auto)

lemma create_journal_until_stored:
  assumes window: "app_window self = Some window" "element window = Some ew"
    and absent: "\<forall>i<j. gui w (clock w + of_nat i / 2) print_dialog = None"
    and found: "gui w (clock w + of_nat j / 2) print_dialog = Some ed"
    and intime: "of_nat j / 2 < (30::rat)"
    and button: "gui w (clock w + of_nat j / 2) (descr (store_button ed)) = Some eb"
  shows "create_journal self w =
           bind (wait_for_control_to_disappear WindowControl [(''AutomationId'', ''frmViewBase'')]
                   (Some 2) (Some 60)) (\<lambda>_.
           bind (is_journal_created self) (\<lambda>created.
             (\<lambda>w. if \<not> created
                  then (Inl (ValueError ''The document was not found in the SQL database.''), w)
                  else (Inr (), w))))
             (w\<lparr>clock := clock w + of_nat j / 2,
                trace := trace w @ journal_ui_events window (clock w) j ed eb\<rparr>)"
proof -
  define w1 where "w1 = emit (KeysSent window ''{Ctrl}{Shift}p'') w"
  define w2 where "w2 = w1\<lparr>clock := clock w1 + of_nat j / 2,
                           trace := trace w1 @ polls print_dialog (clock w1) (Suc j)\<rparr>"
  define dialog where "dialog = \<lparr>descr = print_dialog, element = Some ed\<rparr>"
  define button' where "button' = (store_button ed)\<lparr>element := Some eb\<rparr>"
  define w3 where "w3 = emit (Clicked button') (emit (Searched (descr (store_button ed))) w2)"
  have s1: "attribute_of_app_window self ''SendKeys'' w = (Inr window, w)"
    using window by (simp add: attribute_of_app_window_def)
  have s2: "SendKeys window ''{Ctrl}{Shift}p'' (Some 0) w = (Inr window, w1)"
    using window by (simp add: SendKeys_def bind_def Element_resolved wait_time_def sleep_0 w1_def)
  have w1: "clock w1 = clock w" "gui w1 = gui w"
    by (simp_all add: w1_def emit_def)
  have s3: "wait_for_control WindowControl [(''AutomationId'', ''frmViewBase'')] (Some 2) None w1
              = (Inr dialog, w2)"
    unfolding dialog_def w2_def
    by (rule wait_for_control_found)
      (use absent found intime in \<open>simp_all add: w1 print_dialog_def\<close>)
  have w2: "clock w2 = clock w + of_nat j / 2" "gui w2 = gui w"
    by (simp_all add: w2_def w1)
  have unresolved: "element (store_button ed) = None"
    by (simp add: store_button_def child_def new_control_def)
  have s4: "Click (child dialog PaneControl [(''AutomationId'', ''buttonPrintToDocumentStore'')])
              (Some 0) w2 = (Inr button', w3)"
    using Element_found_now [OF unresolved, of w2 eb] button
    by (simp add: Click_def bind_def wait_time_def sleep_0 w3_def button'_def w2 dialog_def
        store_button_def)
  have w3: "w3 = w\<lparr>clock := clock w + of_nat j / 2,
                   trace := trace w @ journal_ui_events window (clock w) j ed eb\<rparr>"
    by (simp add: w3_def w2_def w1_def emit_def journal_ui_events_def button'_def)
  show ?thesis
    unfolding create_journal_def
    by (simp add: bind_def s1 s2 s3 s4 w3 [symmetric])
qed

section \<open>Runs that succeed\<close>

lemma bind_Inr:
  assumes "bind m f w = (Inr y, w')"
  obtains x w1 where "m w = (Inr x, w1)" and "f x w1 = (Inr y, w')"
  using assms by (auto simp: bind_def split: prod.splits sum.splits)

lemma steps_gui: "steps P w w' \<Longrightarrow> gui w' = gui w"
  by (simp add: steps_def)

lemma emits_run: "emits P m Q \<Longrightarrow> m w = (r, w') \<Longrightarrow> steps P w w'"
  using emits_steps [of P m Q w] by simp

lemma wait_for_control_Inr:
  assumes "wait_for_control control_type search_params search_depth timeout w = (Inr c, w')"
    and "d = target control_type (case search_depth of None \<Rightarrow> 1 | Some n \<Rightarrow> n) search_params"
  shows "gui w (clock w') d = element c \<and> element c \<noteq> None \<and> descr c = d
         \<and> trace w' \<noteq> [] \<and> last (trace w') = (clock w', Searched d)"
proof (rule wait_for_control_cases [OF assms(2) refl, of w timeout])
  fix k e
  assume "gui w (clock w + of_nat k / 2) d = Some e"
    and "wait_for_control control_type search_params search_depth timeout w =
         (Inr \<lparr>descr = d, element = Some e\<rparr>,
          w\<lparr>clock := clock w + of_nat k / 2, trace := trace w @ polls d (clock w) (Suc k)\<rparr>)"
  with assms(1) show ?thesis by (auto simp: polls_def)
next
  assume "wait_for_control control_type search_params search_depth timeout w =
         (Inl (TimeoutError (not_found_message search_params)),
          w\<lparr>clock := clock w + of_nat (nat \<lceil>(case timeout of None \<Rightarrow> 30 | Some t \<Rightarrow> t) * 2\<rceil>) / 2,
            trace := trace w @ polls d (clock w) (nat \<lceil>(case timeout of None \<Rightarrow> 30 | Some t \<Rightarrow> t) * 2\<rceil>)\<rparr>)"
  with assms(1) show ?thesis by simp
qed


section \<open>The identifier in the events of a run\<close>














section \<open>The claims\<close>

subsection \<open>Waiting for a control to appear\<close>

text \<open>
  Claim C1. For every control class, search parameters, search depth and timeout,
  \<open>wait_for_control\<close> resolves the descriptor anew against the accessibility tree of the
  moment, once every 0.5 time units starting at the invocation, each time with the
  zero-wait check \<open>Exists(0, 0)\<close>, and returns the resolved handle at the first poll whose
  check succeeds: when the control is absent at the polls \<open>0, \<dots>, k - 1\<close> and present at
  poll \<open>k\<close>, which lies before the deadline, the result is the handle holding the element
  found at poll \<open>k\<close>, the clock stands at the instant of that poll, and the trace has grown
  by exactly the \<open>k + 1\<close> searches, 0.5 apart. A timeout that is not given is 30.
\<close>

theorem wait_for_control_returns_first_found:
  assumes "d = target control_type (case search_depth of None \<Rightarrow> 1 | Some n \<Rightarrow> n) search_params"
    and "\<forall>i<k. gui w (clock w + of_nat i / 2) d = None"
    and "gui w (clock w + of_nat k / 2) d = Some e"
    and "of_nat k / 2 < (case timeout of None \<Rightarrow> 30 | Some t \<Rightarrow> t)"
  shows "wait_for_control control_type search_params search_depth timeout w =
           (Inr \<lparr>descr = d, element = Some e\<rparr>,
            w\<lparr>clock := clock w + of_nat k / 2, trace := trace w @ polls d (clock w) (Suc k)\<rparr>)
         \<and> wait_for_control control_type search_params search_depth None
             = wait_for_control control_type search_params search_depth (Some 30)"
proof
  show "wait_for_control control_type search_params search_depth timeout w =
           (Inr \<lparr>descr = d, element = Some e\<rparr>,
            w\<lparr>clock := clock w + of_nat k / 2, trace := trace w @ polls d (clock w) (Suc k)\<rparr>)"
    unfolding wait_for_control_unfold assms(1)
    by (rule loop_found) (use assms in auto)
  show "wait_for_control control_type search_params search_depth None
             = wait_for_control control_type search_params search_depth (Some 30)"
    by (rule ext) (simp add: wait_for_control_unfold)
qed

theorem wait_for_control_returns_first_found_witness:
  "wait_for_control WindowControl [(''AutomationId'', ''frmLogin'')] (Some 2) None
      (world_at (\<lambda>t d. if 1 \<le> t then Some 7 else None))
     = (Inr \<lparr>descr = login_window, element = Some 7\<rparr>,
        (world_at (\<lambda>t d. if 1 \<le> t then Some 7 else None))
          \<lparr>clock := 1,
            trace := [(0, Searched login_window), (1 / 2, Searched login_window),
                      (1, Searched login_window)]\<rparr>)"
  using wait_for_control_returns_first_found
    [of login_window WindowControl "Some 2" "[(''AutomationId'', ''frmLogin'')]" 2
      "world_at (\<lambda>t d. if 1 \<le> t then Some 7 else None)" 7 None, THEN conjunct1]
  by (simp add: world_at_def login_window_def target_def new_control_def polls_def
      less_Suc_eq numeral_2_eq_2 numeral_3_eq_3 upt_rec)






subsection \<open>Waiting for a control to disappear\<close>

text \<open>
  Claim C4. \<open>wait_for_control_to_disappear\<close> is the dual: it polls every 0.5 time units and
  returns \<open>True\<close> at the first poll whose existence check fails; it raises the timeout
  failure if and only if every existence check before the deadline still succeeds; and
  it never returns a value other than \<open>True\<close>.
\<close>

theorem wait_for_control_to_disappear_dual:
  assumes "d = target control_type (case search_depth of None \<Rightarrow> 1 | Some n \<Rightarrow> n) search_params"
    and "T = (case timeout of None \<Rightarrow> 30 | Some t \<Rightarrow> t)"
    and "r = wait_for_control_to_disappear control_type search_params search_depth timeout w"
  shows "(\<forall>k. (\<forall>i<k. gui w (clock w + of_nat i / 2) d \<noteq> None)
              \<and> gui w (clock w + of_nat k / 2) d = None \<and> of_nat k / 2 < T \<longrightarrow>
            r = (Inr True,
                 w\<lparr>clock := clock w + of_nat k / 2,
                   trace := trace w @ polls d (clock w) (Suc k)\<rparr>))
         \<and> ((\<forall>i. of_nat i / 2 < T \<longrightarrow> gui w (clock w + of_nat i / 2) d \<noteq> None) \<longrightarrow>
              r = (Inl (TimeoutError (''Control with parameters '' @ repr_dict search_params
                          @ '' did not disappear within the timeout period.'')),
                   w\<lparr>clock := clock w + of_nat (nat \<lceil>T * 2\<rceil>) / 2,
                     trace := trace w @ polls d (clock w) (nat \<lceil>T * 2\<rceil>)\<rparr>))
         \<and> ((\<exists>err. fst r = Inl err) \<longleftrightarrow>
              (\<forall>i. of_nat i / 2 < T \<longrightarrow> gui w (clock w + of_nat i / 2) d \<noteq> None))
         \<and> (\<forall>v. fst r = Inr v \<longrightarrow> v = True)"
proof (rule wait_for_control_to_disappear_cases [OF assms(1,2), of w])
  fix k
  assume present: "\<forall>i<k. gui w (clock w + of_nat i / 2) d \<noteq> None"
    and gone: "gui w (clock w + of_nat k / 2) d = None"
    and intime: "of_nat k / 2 < T"
    and run: "wait_for_control_to_disappear control_type search_params search_depth timeout w =
           (Inr True,
            w\<lparr>clock := clock w + of_nat k / 2, trace := trace w @ polls d (clock w) (Suc k)\<rparr>)"
  have first: "k' = k"
    if "\<forall>i<k'. gui w (clock w + of_nat i / 2) d \<noteq> None"
      and "gui w (clock w + of_nat k' / 2) d = None" for k'
  proof (rule linorder_cases [of k' k])
    assume "k' < k"
    with present that(2) show ?thesis by auto
  next
    assume "k < k'"
    with that(1) gone show ?thesis by auto
  qed
  from gone intime have "\<not> (\<forall>i. of_nat i / 2 < T \<longrightarrow> gui w (clock w + of_nat i / 2) d \<noteq> None)"
    by auto
  then show ?thesis
    unfolding assms(3) run using first by auto
next
  assume stays: "\<forall>i. of_nat i / 2 < T \<longrightarrow> gui w (clock w + of_nat i / 2) d \<noteq> None"
    and run: "wait_for_control_to_disappear control_type search_params search_depth timeout w =
           (Inl (TimeoutError (not_disappeared_message search_params)),
            w\<lparr>clock := clock w + of_nat (nat \<lceil>T * 2\<rceil>) / 2,
              trace := trace w @ polls d (clock w) (nat \<lceil>T * 2\<rceil>)\<rparr>)"
  show ?thesis
    unfolding assms(3) run using stays by (auto simp: not_disappeared_message_def)
qed

theorem wait_for_control_to_disappear_dual_witness:
  "wait_for_control_to_disappear WindowControl [(''AutomationId'', ''frmLogin'')] (Some 2)
      (Some 60) (world_at (\<lambda>t d. if t < 1 then Some 7 else None))
     = (Inr True,
        (world_at (\<lambda>t d. if t < 1 then Some 7 else None))
          \<lparr>clock := 1,
            trace := [(0, Searched login_window), (1 / 2, Searched login_window),
                      (1, Searched login_window)]\<rparr>)
   \<and> wait_for_control_to_disappear WindowControl [(''AutomationId'', ''frmLogin'')] (Some 2)
      (Some 1) (world_at (\<lambda>t d. Some 7))
     = (Inl (TimeoutError (''Control with parameters {'' @ [quote] @ ''AutomationId'' @ [quote]
               @ '': '' @ [quote] @ ''frmLogin'' @ [quote]
               @ ''} did not disappear within the timeout period.'')),
        (world_at (\<lambda>t d. Some 7))
          \<lparr>clock := 1, trace := [(0, Searched login_window), (1 / 2, Searched login_window)]\<rparr>)"
  using
    wait_for_control_to_disappear_dual
      [of login_window WindowControl "Some 2" "[(''AutomationId'', ''frmLogin'')]" 60 "Some 60" _
        "world_at (\<lambda>t d. if t < 1 then Some 7 else None)",
        OF _ _ refl, THEN conjunct1, rule_format, of 2]
    wait_for_control_to_disappear_dual
      [of login_window WindowControl "Some 2" "[(''AutomationId'', ''frmLogin'')]" 1 "Some 1" _
        "world_at (\<lambda>t d. Some 7)",
        OF _ _ refl, THEN conjunct2, THEN conjunct1]
  by (simp add: world_at_def login_window_def target_def new_control_def polls_def
      less_Suc_eq numeral_2_eq_2 numeral_3_eq_3 upt_rec repr_dict_def repr_str_def
      repr_char_def printable_def quote_def Let_def)

subsection \<open>Opening the patient\<close>

text \<open>
  Claim C7, as amended. \<open>open_patient\<close> confirms that the record is open by waiting for a
  tab item whose name is the subject identifier with every hyphen removed (other
  characters, punctuation included, are kept): whenever it succeeds, its last act was a
  search that found that tab item. For the identifier \<open>010101-0101\<close> the name is
  \<open>0101010101\<close>.
\<close>

theorem open_patient_confirms_tab:
  assumes "open_patient self w = (Inr (), w')"
    and "tab_item = target TabItemControl 4 [(''Name'', replace CHR ''-'' [] (ssn self))]"
  shows "gui w (clock w') tab_item \<noteq> None
         \<and> trace w' \<noteq> [] \<and> last (trace w') = (clock w', Searched tab_item)
         \<and> replace CHR ''-'' [] (ssn self) = filter (\<lambda>c. c \<noteq> CHR ''-'') (ssn self)
         \<and> replace CHR ''-'' [] ''010101-0101'' = ''0101010101''"
proof -
  from assms(1) obtain window w1 where s1: "attribute_of_app_window self ''SendKeys'' w = (Inr window, w1)"
    and r1: "bind (SendKeys window ''{Ctrl}o'' (Some 0)) (\<lambda>window.
     bind (wait_for_control EditControl [(''AutomationId'', ''TextBoxChildCPR'')] (Some 8) None) (\<lambda>_.
     bind (SetFocus (child window EditControl [(''AutomationId'', ''TextBoxChildCPR'')]) None)
       (\<lambda>ssn_textbox.
     bind (SendKeys ssn_textbox (ssn self) None) (\<lambda>ssn_textbox.
     bind (SendKeys ssn_textbox ''{ENTER}'' None) (\<lambda>ssn_textbox.
     bind (wait_for_control ListItemControl [(''Name'', ssn self)] (Some 12) None) (\<lambda>list_item.
     bind (DoubleClick list_item (Some 0)) (\<lambda>list_item.
     bind (wait_for_control TabItemControl [(''Name'', replace CHR ''-'' [] (ssn self))]
             (Some 4) None) (\<lambda>_.
     (\<lambda>w. (Inr (), w)))))))))) w1 = (Inr (), w')"
    unfolding open_patient_def by (rule bind_Inr)
  from r1 obtain window2 w2 where s2: "SendKeys window ''{Ctrl}o'' (Some 0) w1 = (Inr window2, w2)"
    and r2: "bind (wait_for_control EditControl [(''AutomationId'', ''TextBoxChildCPR'')] (Some 8) None) (\<lambda>_.
     bind (SetFocus (child window2 EditControl [(''AutomationId'', ''TextBoxChildCPR'')]) None)
       (\<lambda>ssn_textbox.
     bind (SendKeys ssn_textbox (ssn self) None) (\<lambda>ssn_textbox.
     bind (SendKeys ssn_textbox ''{ENTER}'' None) (\<lambda>ssn_textbox.
     bind (wait_for_control ListItemControl [(''Name'', ssn self)] (Some 12) None) (\<lambda>list_item.
     bind (DoubleClick list_item (Some 0)) (\<lambda>list_item.
     bind (wait_for_control TabItemControl [(''Name'', replace CHR ''-'' [] (ssn self))]
             (Some 4) None) (\<lambda>_.
     (\<lambda>w. (Inr (), w))))))))) w2 = (Inr (), w')"
    by (rule bind_Inr)
  from r2 obtain x3 w3 where s3: "wait_for_control EditControl [(''AutomationId'', ''TextBoxChildCPR'')] (Some 8) None w2 = (Inr x3, w3)"
    and r3: "bind (SetFocus (child window2 EditControl [(''AutomationId'', ''TextBoxChildCPR'')]) None)
       (\<lambda>ssn_textbox.
     bind (SendKeys ssn_textbox (ssn self) None) (\<lambda>ssn_textbox.
     bind (SendKeys ssn_textbox ''{ENTER}'' None) (\<lambda>ssn_textbox.
     bind (wait_for_control ListItemControl [(''Name'', ssn self)] (Some 12) None) (\<lambda>list_item.
     bind (DoubleClick list_item (Some 0)) (\<lambda>list_item.
     bind (wait_for_control TabItemControl [(''Name'', replace CHR ''-'' [] (ssn self))]
             (Some 4) None) (\<lambda>_.
     (\<lambda>w. (Inr (), w)))))))) w3 = (Inr (), w')"
    by (rule bind_Inr)
  from r3 obtain box4 w4 where s4: "SetFocus (child window2 EditControl [(''AutomationId'', ''TextBoxChildCPR'')]) None w3 = (Inr box4, w4)"
    and r4: "bind (SendKeys box4 (ssn self) None) (\<lambda>ssn_textbox.
     bind (SendKeys ssn_textbox ''{ENTER}'' None) (\<lambda>ssn_textbox.
     bind (wait_for_control ListItemControl [(''Name'', ssn self)] (Some 12) None) (\<lambda>list_item.
     bind (DoubleClick list_item (Some 0)) (\<lambda>list_item.
     bind (wait_for_control TabItemControl [(''Name'', replace CHR ''-'' [] (ssn self))]
             (Some 4) None) (\<lambda>_.
     (\<lambda>w. (Inr (), w))))))) w4 = (Inr (), w')"
    by (rule bind_Inr)
  from r4 obtain box5 w5 where s5: "SendKeys box4 (ssn self) None w4 = (Inr box5, w5)"
    and r5: "bind (SendKeys box5 ''{ENTER}'' None) (\<lambda>ssn_textbox.
     bind (wait_for_control ListItemControl [(''Name'', ssn self)] (Some 12) None) (\<lambda>list_item.
     bind (DoubleClick list_item (Some 0)) (\<lambda>list_item.
     bind (wait_for_control TabItemControl [(''Name'', replace CHR ''-'' [] (ssn self))]
             (Some 4) None) (\<lambda>_.
     (\<lambda>w. (Inr (), w)))))) w5 = (Inr (), w')"
    by (rule bind_Inr)
  from r5 obtain box6 w6 where s6: "SendKeys box5 ''{ENTER}'' None w5 = (Inr box6, w6)"
    and r6: "bind (wait_for_control ListItemControl [(''Name'', ssn self)] (Some 12) None) (\<lambda>list_item.
     bind (DoubleClick list_item (Some 0)) (\<lambda>list_item.
     bind (wait_for_control TabItemControl [(''Name'', replace CHR ''-'' [] (ssn self))]
             (Some 4) None) (\<lambda>_.
     (\<lambda>w. (Inr (), w))))) w6 = (Inr (), w')"
    by (rule bind_Inr)
  from r6 obtain item7 w7 where s7: "wait_for_control ListItemControl [(''Name'', ssn self)] (Some 12) None w6 = (Inr item7, w7)"
    and r7: "bind (DoubleClick item7 (Some 0)) (\<lambda>list_item.
     bind (wait_for_control TabItemControl [(''Name'', replace CHR ''-'' [] (ssn self))]
             (Some 4) None) (\<lambda>_.
     (\<lambda>w. (Inr (), w)))) w7 = (Inr (), w')"
    by (rule bind_Inr)
  from r7 obtain item8 w8 where s8: "DoubleClick item7 (Some 0) w7 = (Inr item8, w8)"
    and r8: "bind (wait_for_control TabItemControl [(''Name'', replace CHR ''-'' [] (ssn self))]
             (Some 4) None) (\<lambda>_.
     (\<lambda>w. (Inr (), w))) w8 = (Inr (), w')"
    by (rule bind_Inr)
  from r8 obtain c9 where s9: "wait_for_control TabItemControl [(''Name'', replace CHR ''-'' [] (ssn self))]
             (Some 4) None w8 = (Inr c9, w')"
    by (rule bind_Inr) simp
  have "w1 = w" using s1 by (simp add: attribute_of_app_window_def split: option.splits)
  then have "gui w1 = gui w" by simp
  moreover have "gui w2 = gui w1" using emits_run [OF emits_SendKeys s2] by (rule steps_gui)
  moreover have "gui w3 = gui w2" using emits_run [OF emits_wait_for_control [OF refl] s3] by (rule steps_gui)
  moreover have "gui w4 = gui w3" using emits_run [OF emits_SetFocus s4] by (rule steps_gui)
  moreover have "gui w5 = gui w4" using emits_run [OF emits_SendKeys s5] by (rule steps_gui)
  moreover have "gui w6 = gui w5" using emits_run [OF emits_SendKeys s6] by (rule steps_gui)
  moreover have "gui w7 = gui w6" using emits_run [OF emits_wait_for_control [OF refl] s7] by (rule steps_gui)
  moreover have "gui w8 = gui w7" using emits_run [OF emits_DoubleClick s8] by (rule steps_gui)
  ultimately have g: "gui w8 = gui w" by simp
  from wait_for_control_Inr [OF s9, of tab_item] assms(2) g
  have "gui w (clock w') tab_item \<noteq> None \<and> trace w' \<noteq> [] \<and> last (trace w') = (clock w', Searched tab_item)"
    by simp
  moreover have "replace CHR ''-'' [] ''010101-0101'' = ''0101010101''"
    by (simp add: replace_def)
  ultimately show ?thesis by (simp add: replace_delete)
qed

theorem open_patient_confirms_tab_witness:
  "fst (open_patient (patient ''010101-0101'' (Some client_window))
          (world_with (journal_screen 3) (journal_server []))) = Inr ()
   \<and> last (trace (snd (open_patient (patient ''010101-0101'' (Some client_window))
          (world_with (journal_screen 3) (journal_server [])))))
       = (3 / 2, Searched (target TabItemControl 4 [(''Name'', ''0101010101'')]))"
proof -
  let ?self = "patient ''010101-0101'' (Some client_window)"
  let ?w = "world_with (journal_screen 3) (journal_server [])"
  have ok: "fst (open_patient ?self ?w) = Inr ()" by code_simp
  then have run: "open_patient ?self ?w = (Inr (), snd (open_patient ?self ?w))"
    by (simp add: prod_eq_iff)
  have at: "clock (snd (open_patient ?self ?w)) = 3 / 2" by code_simp
  have name: "replace CHR ''-'' [] (ssn ?self) = ''0101010101''"
    by (simp add: patient_def init_def replace_def)
  from open_patient_confirms_tab [OF run refl] ok show ?thesis
    by (simp add: at name)
qed


text \<open>
  The claim as first stated strips punctuation. For the identifier \<open>010101.0101\<close> the
  tab item awaited is named \<open>010101.0101\<close>, with its full stop, and not \<open>0101010101\<close>.
\<close>

theorem open_patient_keeps_other_punctuation:
  "fst (open_patient (patient ''010101.0101'' (Some client_window))
          (world_with (journal_screen 3) (journal_server []))) = Inr ()
   \<and> snd (last (trace (snd (open_patient (patient ''010101.0101'' (Some client_window))
          (world_with (journal_screen 3) (journal_server []))))))
       = Searched (target TabItemControl 4 [(''Name'', ''010101.0101'')])
   \<and> punctuation_stripped ''010101.0101'' = ''0101010101''
   \<and> ''010101.0101'' \<noteq> punctuation_stripped ''010101.0101''"
  by (intro conjI; code_simp)

subsection \<open>Creating the journal\<close>

text \<open>
  Claim C5. In \<open>create_journal\<close>, when the print dialog (the window \<open>frmViewBase\<close>) has
  come up and its store button has been clicked, and the dialog is then still there at
  every poll of the 60 time units that follow, the operation fails with the timeout
  error of the disappearance wait, 60 time units after the click, and the database check
  is never made: no connection is opened and no statement executed.
\<close>

theorem create_journal_timeout_skips_database_check:
  assumes window: "app_window self = Some window" "element window = Some ew"
    and absent: "\<forall>i<j. gui w (clock w + of_nat i / 2) print_dialog = None"
    and found: "gui w (clock w + of_nat j / 2) print_dialog = Some ed"
    and intime: "of_nat j / 2 < (30::rat)"
    and button: "gui w (clock w + of_nat j / 2) (descr (store_button ed)) = Some eb"
    and stays: "\<forall>i. of_nat i / 2 < (60::rat) \<longrightarrow>
                  gui w (clock w + of_nat j / 2 + of_nat i / 2) print_dialog \<noteq> None"
  shows "create_journal self w =
           (Inl (TimeoutError (''Control with parameters ''
                   @ repr_dict [(''AutomationId'', ''frmViewBase'')]
                   @ '' did not disappear within the timeout period.'')),
            w\<lparr>clock := clock w + of_nat j / 2 + 60,
              trace := trace w @ journal_ui_events window (clock w) j ed eb
                         @ polls print_dialog (clock w + of_nat j / 2) 120\<rparr>)
         \<and> database_events (snd (create_journal self w)) = database_events w"
proof -
  let ?w3 = "w\<lparr>clock := clock w + of_nat j / 2,
               trace := trace w @ journal_ui_events window (clock w) j ed eb\<rparr>"
  have wait: "wait_for_control_to_disappear WindowControl [(''AutomationId'', ''frmViewBase'')]
                (Some 2) (Some 60) ?w3
              = (Inl (TimeoutError (not_disappeared_message [(''AutomationId'', ''frmViewBase'')])),
                 ?w3\<lparr>clock := clock ?w3 + of_nat (nat \<lceil>(60::rat) * 2\<rceil>) / 2,
                     trace := trace ?w3 @ polls print_dialog (clock ?w3) (nat \<lceil>(60::rat) * 2\<rceil>)\<rparr>)"
    by (rule wait_for_control_to_disappear_stays)
      (use stays in \<open>simp_all add: print_dialog_def\<close>)
  have run: "create_journal self w =
           (Inl (TimeoutError (''Control with parameters ''
                   @ repr_dict [(''AutomationId'', ''frmViewBase'')]
                   @ '' did not disappear within the timeout period.'')),
            w\<lparr>clock := clock w + of_nat j / 2 + 60,
              trace := trace w @ journal_ui_events window (clock w) j ed eb
                         @ polls print_dialog (clock w + of_nat j / 2) 120\<rparr>)"
    unfolding create_journal_until_stored [OF window absent found intime button]
    by (simp add: bind_def wait not_disappeared_message_def)
  show ?thesis
    unfolding run
    by (simp add: database_events_def journal_ui_events_def polls_none_database)
qed

theorem create_journal_timeout_skips_database_check_witness:
  "fst (create_journal (patient ''010101-0101'' (Some client_window))
          (world_with (journal_screen 1000) (journal_server [[''17'', ''4'']])))
     = Inl (TimeoutError (''Control with parameters {'' @ [quote] @ ''AutomationId'' @ [quote]
               @ '': '' @ [quote] @ ''frmViewBase'' @ [quote]
               @ ''} did not disappear within the timeout period.''))
   \<and> clock (snd (create_journal (patient ''010101-0101'' (Some client_window))
          (world_with (journal_screen 1000) (journal_server [[''17'', ''4'']])))) = 60
   \<and> database_events (snd (create_journal (patient ''010101-0101'' (Some client_window))
          (world_with (journal_screen 1000) (journal_server [[''17'', ''4'']])))) = []"
  using create_journal_timeout_skips_database_check
    [of "patient ''010101-0101'' (Some client_window)" client_window 1 0
      "world_with (journal_screen 1000) (journal_server [[''17'', ''4'']])" 5 6]
  by (simp add: patient_def init_def client_window_def world_with_def journal_screen_def
      print_dialog_def store_button_def child_def new_control_def target_def
      database_events_def journal_ui_events_def polls_none_database
      repr_dict_def repr_str_def repr_char_def printable_def quote_def Let_def)



subsection \<open>The database check\<close>



text \<open>
  Claim C9. The statement is built by interpolating the identifier and the file name
  into the text: no parameter is bound (the list of parameters handed to \<open>execute\<close> is
  empty), and for every identifier its value, hyphens removed, stands verbatim inside the
  executed text, as does the file name.
\<close>

theorem journal_query_interpolates_identifier:
  assumes "sql_server w (connection_string self) = Inr conn"
    and "cpr = replace CHR ''-'' [] (ssn self)"
    and "filename = ''Udskrift af journal '' @ strftime_dmY (calendar w (clock w)) @ ''.pdf''"
  shows "trace (snd (is_journal_created self w)) =
           trace w @ [(clock w, SqlConnected (connection_string self)),
                      (clock w, SqlExecuted (query_head @ cpr @ query_mid @ filename @ query_tail) [])]
         \<and> sublist cpr (query_head @ cpr @ query_mid @ filename @ query_tail)
         \<and> sublist filename (query_head @ cpr @ query_mid @ filename @ query_tail)"
proof (intro conjI)
  show "trace (snd (is_journal_created self w)) =
           trace w @ [(clock w, SqlConnected (connection_string self)),
                      (clock w, SqlExecuted (query_head @ cpr @ query_mid @ filename @ query_tail) [])]"
    using assms
    by (simp add: is_journal_created_run Let_def emit_def journal_query_def split: sum.splits)
  show "sublist cpr (query_head @ cpr @ query_mid @ filename @ query_tail)"
    by (simp add: sublist_def) blast
  have "query_head @ cpr @ query_mid @ filename @ query_tail
          = (query_head @ cpr @ query_mid) @ filename @ query_tail" by simp
  then show "sublist filename (query_head @ cpr @ query_mid @ filename @ query_tail)"
    unfolding sublist_def by blast
qed

theorem journal_query_interpolates_identifier_witness:
  "trace (snd (is_journal_created (patient ''010101-0101'' None)
          (world_with (\<lambda>t d. None) (journal_server [])))) =
     [(0, SqlConnected ''DSN=solteq''),
      (0, SqlExecuted (query_head @ ''0101010101'' @ query_mid
             @ ''Udskrift af journal 03-11-2026.pdf'' @ query_tail) [])]
   \<and> sublist ''0101010101'' (query_head @ ''0101010101'' @ query_mid
             @ ''Udskrift af journal 03-11-2026.pdf'' @ query_tail)"
proof -
  let ?w = "world_with (\<lambda>t d. None) (journal_server [])"
  let ?self = "patient ''010101-0101'' None"
  have server: "sql_server ?w (connection_string ?self) = journal_server [] ''DSN=solteq''"
    by (simp add: patient_def init_def world_with_def)
  have server': "journal_server [] ''DSN=solteq'' = Inr (journal_connection [])"
    by (simp add: journal_server_def)
  have cpr: "''0101010101'' = replace CHR ''-'' [] (ssn ?self)"
    by (simp add: patient_def init_def replace_def)
  have filename: "''Udskrift af journal 03-11-2026.pdf''
      = ''Udskrift af journal '' @ strftime_dmY (calendar ?w (clock ?w)) @ ''.pdf''"
    by (simp add: world_with_def strftime_dmY_def zfill_def)
  note run = journal_query_interpolates_identifier [OF server [unfolded server'] cpr filename]
  from run have "trace (snd (is_journal_created ?self ?w)) =
     [(0, SqlConnected ''DSN=solteq''),
      (0, SqlExecuted (query_head @ ''0101010101'' @ query_mid
             @ ''Udskrift af journal 03-11-2026.pdf'' @ query_tail) [])]"
    by (simp add: patient_def init_def world_with_def)
  moreover from run have "sublist ''0101010101'' (query_head @ ''0101010101'' @ query_mid
             @ ''Udskrift af journal 03-11-2026.pdf'' @ query_tail)"
    by (rule conjunct2 [THEN conjunct1])
  ultimately show ?thesis by (rule conjI)
qed

subsection \<open>The entry point\<close>



end
